theory Spec2Isabelle
  imports Main "HOL-Library.Word"
begin

unbundle bit_operations_syntax

section \<open>Machine types and register addresses\<close>

text \<open>
  The target is an 8-bit AVR: \<^verbatim>\<open>uint8_t\<close> is \<^verbatim>\<open>unsigned char\<close>, \<^verbatim>\<open>uint16_t\<close> is
  \<^verbatim>\<open>unsigned short\<close> (16 bits), and \<^verbatim>\<open>int\<close>, the type every operand of \<^verbatim>\<open>|\<close>, \<^verbatim>\<open>&\<close>,
  \<^verbatim>\<open>~\<close> and \<^verbatim>\<open><<\<close> is promoted to, has 16 bits as well.
\<close>

type_synonym uint8_t = "8 word"
type_synonym uint16_t = "16 word"
type_synonym c_int = "16 word"

definition DDRB_ADDR :: uint16_t where
  "DDRB_ADDR = 0x24"

definition PORTB_ADDR :: uint16_t where
  "PORTB_ADDR = 0x25"

definition TCCR1A_ADDR :: uint16_t where
  "TCCR1A_ADDR = 0x80"

definition TCCR1B_ADDR :: uint16_t where
  "TCCR1B_ADDR = 0x81"

definition TCNT1L_ADDR :: uint16_t where
  "TCNT1L_ADDR = 0x84"

definition TCNT1H_ADDR :: uint16_t where
  "TCNT1H_ADDR = 0x85"

definition TIFR1_ADDR :: uint16_t where
  "TIFR1_ADDR = 0x36"

section \<open>Volatile register accesses\<close>

text \<open>
  Every access of the programs goes through a \<^verbatim>\<open>volatile uint8_t *\<close>: a load or a store
  that really reaches the device. What the device does with it is not in the C code, so
  the four access helpers are written over a bus: a load returns the byte read and the
  device's next state, a store returns the device's next state.
\<close>

record 's bus =
  load :: "'s \<Rightarrow> uint16_t \<Rightarrow> uint8_t \<times> 's"
  store :: "'s \<Rightarrow> uint16_t \<Rightarrow> uint8_t \<Rightarrow> 's"

text \<open>
  \<^verbatim>\<open>*reg |= (1 << bit)\<close>: one load, the OR computed in \<^verbatim>\<open>int\<close>, the result converted back to
  \<^verbatim>\<open>uint8_t\<close>, one store. (The name \<open>set_bit\<close> is taken by the HOL library.) The programs
  pass the bit indices 0 and 5 only. C leaves \<^verbatim>\<open>1 << bit\<close> undefined in a 16-bit \<^verbatim>\<open>int\<close> from
  index 15 on; the word shift used here then gives 0x8000 and, from 16 on, 0, so that
  from index 8 on the register is stored back unchanged.
\<close>

definition set_bit_reg :: "'s bus \<Rightarrow> uint16_t \<Rightarrow> uint8_t \<Rightarrow> 's \<Rightarrow> 's" where
  "set_bit_reg B a b s =
     (case load B s a of (v, s1) \<Rightarrow>
        store B s1 a (ucast ((ucast v :: c_int) OR push_bit (unat b) 1)))"

text \<open>\<^verbatim>\<open>*reg &= ~(1 << bit)\<close>, likewise.\<close>

definition clear_bit :: "'s bus \<Rightarrow> uint16_t \<Rightarrow> uint8_t \<Rightarrow> 's \<Rightarrow> 's" where
  "clear_bit B a b s =
     (case load B s a of (v, s1) \<Rightarrow>
        store B s1 a (ucast ((ucast v :: c_int) AND NOT (push_bit (unat b) 1))))"

definition write_reg :: "'s bus \<Rightarrow> uint16_t \<Rightarrow> uint8_t \<Rightarrow> 's \<Rightarrow> 's" where
  "write_reg B a v s = store B s a v"

definition read_reg :: "'s bus \<Rightarrow> uint16_t \<Rightarrow> 's \<Rightarrow> uint8_t \<times> 's" where
  "read_reg B a s = load B s a"

section \<open>The timer-driven delay\<close>

text \<open>
  \<^verbatim>\<open>while (!(read_reg(TIFR1_ADDR) & 1));\<close> The loop has no bound of its own: where it never
  exits the value is \<open>None\<close>.
\<close>

partial_function (option) poll :: "'s bus \<Rightarrow> 's \<Rightarrow> 's option" where
  "poll B s =
     (case read_reg B TIFR1_ADDR s of (v, s1) \<Rightarrow>
        if (ucast v :: c_int) AND 1 \<noteq> 0 then Some s1 else poll B s1)"

definition delay_1000ms :: "'s bus \<Rightarrow> 's \<Rightarrow> 's option" where
  "delay_1000ms B s =
     (let s1 = write_reg B TCCR1A_ADDR 0x00 s;
          s2 = write_reg B TCCR1B_ADDR 0x04 s1;
          s3 = write_reg B TCNT1L_ADDR 0xDB s2;
          s4 = write_reg B TCNT1H_ADDR 0x0B s3
      in case poll B s4 of
           None \<Rightarrow> None
         | Some s5 \<Rightarrow> Some (set_bit_reg B TIFR1_ADDR 0 s5))"

text \<open>
  The program point of \<open>delay_1000ms\<close> between the preload and the polling loop: the
  device state once the two control registers and the two counter bytes are written.
\<close>

definition delay_armed :: "'s bus \<Rightarrow> 's \<Rightarrow> 's" where
  "delay_armed B s =
     write_reg B TCNT1H_ADDR 0x0B
       (write_reg B TCNT1L_ADDR 0xDB
          (write_reg B TCCR1B_ADDR 0x04
             (write_reg B TCCR1A_ADDR 0x00 s)))"

text \<open>
  The program point of \<open>delay_1000ms\<close> at the exit of the polling loop: the device
  state when a poll has found the flag set, before the flag is cleared; no value where
  the loop never exits.
\<close>

definition delay_flag_seen :: "'s bus \<Rightarrow> 's \<Rightarrow> 's option" where
  "delay_flag_seen B s = poll B (delay_armed B s)"

section \<open>The main program of the timer variant\<close>

text \<open>One pass through the body of \<^verbatim>\<open>while(1)\<close>.\<close>

definition loop_body :: "'s bus \<Rightarrow> 's \<Rightarrow> 's option" where
  "loop_body B s =
     (case delay_1000ms B (set_bit_reg B PORTB_ADDR 5 s) of
        None \<Rightarrow> None
      | Some s2 \<Rightarrow> delay_1000ms B (clear_bit B PORTB_ADDR 5 s2))"



text \<open>The device state after the first \<open>n\<close> passes through the loop body, if they all end.\<close>

fun loop_iter :: "nat \<Rightarrow> 's bus \<Rightarrow> 's \<Rightarrow> 's option" where
  "loop_iter 0 B s = Some s"
| "loop_iter (Suc n) B s =
     (case loop_body B s of
        None \<Rightarrow> None
      | Some s' \<Rightarrow> loop_iter n B s')"


section \<open>The main program of the library variant\<close>

text \<open>
  The first variant of the program, \<^verbatim>\<open>blink_led.c\<close>; its \<^verbatim>\<open>main\<close> is \<open>blink_led_main\<close> here.
\<close>








section \<open>Devices\<close>

subsection \<open>Plain storage\<close>

text \<open>
  A register that holds what was last stored to it, as the C object model has it and as
  the data-direction and output port registers behave.
\<close>

definition ram :: "(uint16_t \<Rightarrow> uint8_t) bus" where
  "ram = \<lparr>load = (\<lambda>m a. (m a, m)), store = (\<lambda>m a v. m(a := v))\<rparr>"

subsection \<open>Recording the accesses\<close>

text \<open>
  Any device, with the list of the accesses made so far (oldest first) beside it. The
  list also takes a mark for each wait in the vendor library's \<^verbatim>\<open>_delay_ms\<close>, which makes no
  access (the first variant of the program waits there; the timer variant never does).
\<close>

datatype access = Rd uint16_t uint8_t | Wr uint16_t uint8_t | Wait_ms nat

definition logged :: "'s bus \<Rightarrow> ('s \<times> access list) bus" where
  "logged B =
     \<lparr>load = (\<lambda>(s, t) a. case load B s a of (v, s1) \<Rightarrow> (v, (s1, t @ [Rd a v]))),
      store = (\<lambda>(s, t) a v. (store B s a v, t @ [Wr a v]))\<rparr>"

text \<open>The bytes stored to one address, in order.\<close>

fun writes_to :: "uint16_t \<Rightarrow> access list \<Rightarrow> uint8_t list" where
  "writes_to a [] = []"
| "writes_to a (Rd a' v # t) = writes_to a t"
| "writes_to a (Wr a' v # t) = (if a' = a then v # writes_to a t else writes_to a t)"
| "writes_to a (Wait_ms n # t) = writes_to a t"

text \<open>The positions in a trace of the stores to one address.\<close>

fun write_positions :: "uint16_t \<Rightarrow> nat \<Rightarrow> access list \<Rightarrow> nat list" where
  "write_positions a i [] = []"
| "write_positions a i (Rd a' v # t) = write_positions a (Suc i) t"
| "write_positions a i (Wr a' v # t) =
     (if a' = a then i # write_positions a (Suc i) t else write_positions a (Suc i) t)"
| "write_positions a i (Wait_ms n # t) = write_positions a (Suc i) t"

text \<open>
  The 16-bit value that a trace loads into the counter: defined when the trace stores
  exactly once to each of the two counter byte registers.
\<close>

definition preload_written :: "access list \<Rightarrow> nat option" where
  "preload_written t =
     (case (writes_to TCNT1H_ADDR t, writes_to TCNT1L_ADDR t) of
        ([h], [l]) \<Rightarrow> Some (256 * unat h + unat l)
      | _ \<Rightarrow> None)"

text \<open>The addresses stored to, in order.\<close>

fun store_addrs :: "access list \<Rightarrow> uint16_t list" where
  "store_addrs [] = []"
| "store_addrs (Rd a v # t) = store_addrs t"
| "store_addrs (Wr a v # t) = a # store_addrs t"
| "store_addrs (Wait_ms n # t) = store_addrs t"





subsection \<open>The timer peripheral\<close>

text \<open>
  Modelled from the spec: the 16-bit counter, its overflow flag and the passing of time
  are hardware, not code of the repository. The spec's data model: the counter is a
  16-bit value split across two adjacent 8-bit registers, it "increments automatically at
  the prescaled clock rate; wraps from its maximum value to zero, and on that wrap sets
  the overflow flag"; the flag is bit 0 of the flag register and has "write-1-to-clear
  semantics": "writing 1 to the overflow flag's bit position clears it; writing 0 has no
  effect". Every other register is plain storage.

  Time is counted in prescaled ticks. How many ticks pass before each access of the
  program is up to the clock, so it is a parameter: \<open>sched k\<close> ticks pass just before the
  \<open>k\<close>-th access.
\<close>

record mcu =
  regs :: "uint16_t \<Rightarrow> uint8_t"
  steps :: nat
  elapsed :: nat

text \<open>
  Modelled from the spec: the counter value, high byte register and low byte register
  read as one 16-bit number.
\<close>

definition tcnt1 :: "(uint16_t \<Rightarrow> uint8_t) \<Rightarrow> nat" where
  "tcnt1 r = 256 * unat (r TCNT1H_ADDR) + unat (r TCNT1L_ADDR)"

text \<open>Modelled from the spec: \<open>n\<close> prescaled ticks pass (counter and flag as above).\<close>

definition advance :: "nat \<Rightarrow> mcu \<Rightarrow> mcu" where
  "advance n s =
     (let c = tcnt1 (regs s) + n;
          r = (regs s)(TCNT1L_ADDR := of_nat c, TCNT1H_ADDR := of_nat (c div 256))
      in s\<lparr>regs := (if 65536 \<le> c then r(TIFR1_ADDR := r TIFR1_ADDR OR 1) else r),
           elapsed := elapsed s + n\<rparr>)"

text \<open>Modelled from the spec: a load returns the register's current value.\<close>

definition timer_load :: "(nat \<Rightarrow> nat) \<Rightarrow> mcu \<Rightarrow> uint16_t \<Rightarrow> uint8_t \<times> mcu" where
  "timer_load sched s a =
     (let s1 = advance (sched (steps s)) s
      in (regs s1 a, s1\<lparr>steps := Suc (steps s)\<rparr>))"

text \<open>
  Modelled from the spec: a store to the flag register clears the bits written as 1 and
  leaves the bits written as 0; a store to any other register replaces its value.
\<close>

definition timer_store :: "(nat \<Rightarrow> nat) \<Rightarrow> mcu \<Rightarrow> uint16_t \<Rightarrow> uint8_t \<Rightarrow> mcu" where
  "timer_store sched s a v =
     (let s1 = advance (sched (steps s)) s;
          r = regs s1
      in s1\<lparr>regs := (if a = TIFR1_ADDR then r(a := r a AND NOT v) else r(a := v)),
            steps := Suc (steps s)\<rparr>)"

text \<open>Modelled from the spec: the timer as a device, for a given clock.\<close>

definition timer :: "(nat \<Rightarrow> nat) \<Rightarrow> mcu bus" where
  "timer sched = \<lparr>load = timer_load sched, store = timer_store sched\<rparr>"

text \<open>
  Two properties a clock may have. The clock never stops: after every access there is a
  later one preceded by a tick.
\<close>

definition ticks_forever :: "(nat \<Rightarrow> nat) \<Rightarrow> bool" where
  "ticks_forever sched = (\<forall>k. \<exists>j\<ge>k. 0 < sched j)"

text \<open>
  The program is faster than the prescaled clock: at most one tick passes between two
  accesses (a tick is 256 system clock cycles, an access a few).
\<close>

definition tick_per_access :: "(nat \<Rightarrow> nat) \<Rightarrow> bool" where
  "tick_per_access sched = (\<forall>k. sched k \<le> 1)"

text \<open>
  The prescaled clock is slow beside the program: at most one tick passes in any four
  accesses in a row (a tick is 256 system clock cycles, an access a few).
\<close>

definition slow_clock :: "(nat \<Rightarrow> nat) \<Rightarrow> bool" where
  "slow_clock sched = (\<forall>k. sched k + sched (k + 1) + sched (k + 2) + sched (k + 3) \<le> 1)"

text \<open>The overflow flag, bit 0 of the flag register.\<close>

definition tov1 :: "mcu \<Rightarrow> bool" where
  "tov1 s = bit (regs s TIFR1_ADDR) 0"


definition peek :: "uint16_t \<Rightarrow> mcu \<Rightarrow> uint8_t" where
  "peek a s = regs s a"

text \<open>
  The duration of a delay: the ticks that pass from the start of a call of
  \<open>delay_1000ms\<close> to the poll that finds the flag set.
\<close>

definition start_to_flag :: "(nat \<Rightarrow> nat) \<Rightarrow> mcu \<Rightarrow> nat option" where
  "start_to_flag sched s =
     map_option (\<lambda>p. elapsed p - elapsed s) (delay_flag_seen (timer sched) s)"

subsection \<open>Example clocks and states\<close>

text \<open>A clock that ticks once before every access, and a stopped clock.\<close>

definition steady :: "nat \<Rightarrow> nat" where
  "steady k = 1"

definition stopped :: "nat \<Rightarrow> nat" where
  "stopped k = 0"

text \<open>A clock that ticks once before every fourth access.\<close>

definition quarter :: "nat \<Rightarrow> nat" where
  "quarter k = (if k mod 4 = 0 then 1 else 0)"

text \<open>Plain storage, all zero but for the overflow flag, which is set.\<close>

definition flag_set_mem :: "uint16_t \<Rightarrow> uint8_t" where
  "flag_set_mem = (\<lambda>a. 0)(TIFR1_ADDR := 1)"

text \<open>
  What a call of \<open>delay_1000ms\<close> makes of that storage, and the accesses it makes: the
  flag is found set by the first poll.
\<close>

definition flag_set_mem_after :: "uint16_t \<Rightarrow> uint8_t" where
  "flag_set_mem_after =
     flag_set_mem(TCCR1B_ADDR := 0x04, TCNT1L_ADDR := 0xDB, TCNT1H_ADDR := 0x0B)"

definition flag_set_trace :: "access list" where
  "flag_set_trace =
     [Wr TCCR1A_ADDR 0x00, Wr TCCR1B_ADDR 0x04, Wr TCNT1L_ADDR 0xDB, Wr TCNT1H_ADDR 0x0B,
      Rd TIFR1_ADDR 1, Rd TIFR1_ADDR 1, Wr TIFR1_ADDR 1]"

text \<open>
  The timer with two flags of the flag register pending: the overflow flag (bit 0) and
  one more (bit 1).
\<close>

definition two_flags :: mcu where
  "two_flags = \<lparr>regs = (\<lambda>a. 0)(TIFR1_ADDR := 3), steps = 0, elapsed = 0\<rparr>"

text \<open>The timer after reset with pin 5 of port B made an output and driven low.\<close>

definition pin_ready :: mcu where
  "pin_ready = \<lparr>regs = (\<lambda>a. 0)(DDRB_ADDR := 0x20), steps = 0, elapsed = 0\<rparr>"

text \<open>
  The timer with pin 5 of port B an output and driven low, and the overflow flag
  pending.
\<close>

definition flag_pending :: mcu where
  "flag_pending = \<lparr>regs = (\<lambda>a. 0)(DDRB_ADDR := 0x20, TIFR1_ADDR := 1), steps = 0, elapsed = 0\<rparr>"

subsection \<open>Clock arithmetic\<close>

text \<open>
  Modelled from the spec: the source gives neither the clock frequency nor the meaning of
  the prescale setting 0x04; the spec's example is a 16 MHz system clock.
\<close>

definition clock_frequency :: nat where
  "clock_frequency = 16000000"

text \<open>Modelled from the spec: the prescale divisor of the spec's example, 256.\<close>

definition prescaler :: nat where
  "prescaler = 256"

text \<open>
  Modelled from the spec: \<open>ticks = duration_seconds \<times> (clock_frequency / prescaler)\<close>.
\<close>

definition ticks :: "nat \<Rightarrow> nat" where
  "ticks duration_seconds = duration_seconds * (clock_frequency div prescaler)"

section \<open>Auxiliary facts\<close>

lemmas addr_defs =
  DDRB_ADDR_def PORTB_ADDR_def TCCR1A_ADDR_def TCCR1B_ADDR_def
  TCNT1L_ADDR_def TCNT1H_ADDR_def TIFR1_ADDR_def

lemma flag_test: "((ucast (v :: uint8_t) :: c_int) AND 1 \<noteq> 0) = bit v 0"
proof -
  have "((ucast v :: c_int) AND 1 \<noteq> 0) = odd (ucast v :: c_int)"
    by (simp add: and_one_eq mod_2_eq_odd)
  also have "\<dots> = bit (ucast v :: c_int) 0"
    by (simp add: bit_0)
  also have "\<dots> = bit v 0"
    by (simp add: bit_ucast_iff)
  finally show ?thesis .
qed

lemma poll_unfold:
  "poll B s = (if bit (fst (load B s TIFR1_ADDR)) 0 then Some (snd (load B s TIFR1_ADDR))
               else poll B (snd (load B s TIFR1_ADDR)))"
  by (subst poll.simps) (simp add: read_reg_def flag_test split: prod.split)

lemma load_logged: "load (logged B) (s, t) a = (fst (load B s a), (snd (load B s a), t @ [Rd a (fst (load B s a))]))"
  by (simp add: logged_def split: prod.split)

lemma store_logged: "store (logged B) (s, t) a v = (store B s a v, t @ [Wr a v])"
  by (simp add: logged_def)

lemma poll_logged_trace:
  assumes "poll (logged B) st = Some st'"
  shows "\<exists>vs v. snd st' = snd st @ map (Rd TIFR1_ADDR) vs @ [Rd TIFR1_ADDR v]
               \<and> (\<forall>x\<in>set vs. \<not> bit x 0) \<and> bit v 0"
proof -
  let ?P = "\<lambda>(C :: ('a \<times> access list) bus) st st'.
     \<forall>B. C = logged B \<longrightarrow> (\<exists>vs v. snd st' = snd st @ map (Rd TIFR1_ADDR) vs @ [Rd TIFR1_ADDR v]
               \<and> (\<forall>x\<in>set vs. \<not> bit x 0) \<and> bit v 0)"
  have "?P (logged B) st st'"
  proof (rule poll.raw_induct[where P = ?P, OF _ assms], goal_cases)
    case (1 pl C st st')
    show ?case
    proof (intro allI impI)
      fix B :: "'a bus"
      assume C: "C = logged B"
      obtain s t where st: "st = (s, t)" by (cases st)
      let ?v = "fst (load B s TIFR1_ADDR)"
      let ?s1 = "snd (load B s TIFR1_ADDR)"
      show "\<exists>vs v. snd st' = snd st @ map (Rd TIFR1_ADDR) vs @ [Rd TIFR1_ADDR v]
               \<and> (\<forall>x\<in>set vs. \<not> bit x 0) \<and> bit v 0"
      proof (cases "bit ?v 0")
        case True
        with 1(2) have "st' = (?s1, t @ [Rd TIFR1_ADDR ?v])"
          by (simp add: C st read_reg_def load_logged flag_test)
        with True show ?thesis
          by (intro exI[of _ "[]"] exI[of _ ?v]) (simp add: st)
      next
        case False
        with 1(2) have "pl C (?s1, t @ [Rd TIFR1_ADDR ?v]) = Some st'"
          by (simp add: C st read_reg_def load_logged flag_test)
        from 1(1)[OF this] C obtain vs v where
          "snd st' = (t @ [Rd TIFR1_ADDR ?v]) @ map (Rd TIFR1_ADDR) vs @ [Rd TIFR1_ADDR v]"
          "\<forall>x\<in>set vs. \<not> bit x 0" "bit v 0"
          by auto
        with False show ?thesis
          by (intro exI[of _ "?v # vs"] exI[of _ v]) (simp add: st)
      qed
    qed
  qed
  then show ?thesis by blast
qed

lemma poll_logged_fst:
  assumes "poll (logged B) st = Some st'"
  shows "poll B (fst st) = Some (fst st')"
proof -
  let ?P = "\<lambda>(C :: ('a \<times> access list) bus) st st'.
     \<forall>B. C = logged B \<longrightarrow> poll B (fst st) = Some (fst st')"
  have "?P (logged B) st st'"
  proof (rule poll.raw_induct[where P = ?P, OF _ assms], goal_cases)
    case (1 pl C st st')
    show ?case
    proof (intro allI impI)
      fix B :: "'a bus"
      assume C: "C = logged B"
      obtain s t where st: "st = (s, t)" by (cases st)
      let ?v = "fst (load B s TIFR1_ADDR)"
      let ?s1 = "snd (load B s TIFR1_ADDR)"
      show "poll B (fst st) = Some (fst st')"
      proof (cases "bit ?v 0")
        case True
        with 1(2) have "st' = (?s1, t @ [Rd TIFR1_ADDR ?v])"
          by (simp add: C st read_reg_def load_logged flag_test)
        with True show ?thesis
          by (subst poll_unfold) (simp add: st)
      next
        case False
        with 1(2) have "pl C (?s1, t @ [Rd TIFR1_ADDR ?v]) = Some st'"
          by (simp add: C st read_reg_def load_logged flag_test)
        from 1(1)[OF this] C have "poll B ?s1 = Some (fst st')" by simp
        with False show ?thesis
          by (subst poll_unfold) (simp add: st)
      qed
    qed
  qed
  then show ?thesis by blast
qed

lemma poll_logged_ex:
  assumes "poll B s = Some s'"
  shows "\<exists>t'. poll (logged B) (s, t) = Some (s', t')"
proof -
  let ?P = "\<lambda>(B :: 'a bus) s s'. \<forall>t. \<exists>t'. poll (logged B) (s, t) = Some (s', t')"
  have "?P B s s'"
  proof (rule poll.raw_induct[where P = ?P, OF _ assms], goal_cases)
    case (1 pl B s s')
    show ?case
    proof
      fix t
      let ?v = "fst (load B s TIFR1_ADDR)"
      let ?s1 = "snd (load B s TIFR1_ADDR)"
      show "\<exists>t'. poll (logged B) (s, t) = Some (s', t')"
      proof (cases "bit ?v 0")
        case True
        with 1(2) have "s' = ?s1"
          by (simp add: read_reg_def flag_test split: prod.splits)
        with True show ?thesis
          by (subst poll_unfold) (simp add: load_logged)
      next
        case False
        with 1(2) have "pl B ?s1 = Some s'"
          by (simp add: read_reg_def flag_test split: prod.splits)
        from 1(1)[OF this] obtain t' where "poll (logged B) (?s1, t @ [Rd TIFR1_ADDR ?v]) = Some (s', t')"
          by blast
        with False show ?thesis
          by (subst poll_unfold) (simp add: load_logged)
      qed
    qed
  qed
  then show ?thesis by blast
qed

lemma set_bit0_value: "(ucast ((ucast (w :: uint8_t) :: c_int) OR push_bit (unat (0 :: uint8_t)) 1) :: uint8_t) = w OR 1"
  by (rule bit_word_eqI) (auto simp add: bit_simps)

lemma set_bit5_value: "(ucast ((ucast (w :: uint8_t) :: c_int) OR push_bit (unat (5 :: uint8_t)) 1) :: uint8_t) = w OR 0x20"
  by (rule bit_word_eqI) (auto simp add: bit_simps)

lemma clear_bit5_value: "(ucast ((ucast (w :: uint8_t) :: c_int) AND NOT (push_bit (unat (5 :: uint8_t)) 1)) :: uint8_t) = w AND NOT 0x20"
  by (rule bit_word_eqI) (auto simp add: bit_simps)

lemma set_bit_reg_0: "set_bit_reg B a 0 s = store B (snd (load B s a)) a (fst (load B s a) OR 1)"
  using set_bit0_value by (simp add: set_bit_reg_def split: prod.split)

lemma set_bit_reg_5: "set_bit_reg B a 5 s = store B (snd (load B s a)) a (fst (load B s a) OR 0x20)"
  using set_bit5_value by (simp add: set_bit_reg_def split: prod.split)

lemma clear_bit_5: "clear_bit B a 5 s = store B (snd (load B s a)) a (fst (load B s a) AND NOT 0x20)"
  using clear_bit5_value by (simp add: clear_bit_def split: prod.split)

lemma delay_unfold:
  "delay_1000ms B s =
     (case poll B (delay_armed B s) of None \<Rightarrow> None
      | Some s5 \<Rightarrow> Some (set_bit_reg B TIFR1_ADDR 0 s5))"
  by (simp add: delay_1000ms_def delay_armed_def)

lemma delay_armed_logged:
  "delay_armed (logged B) (s, t) =
     (delay_armed B s,
      t @ [Wr TCCR1A_ADDR 0x00, Wr TCCR1B_ADDR 0x04, Wr TCNT1L_ADDR 0xDB, Wr TCNT1H_ADDR 0x0B])"
  by (simp add: delay_armed_def write_reg_def store_logged)

lemma set_bit_reg_0_logged:
  "set_bit_reg (logged B) a 0 (s, t) =
     (set_bit_reg B a 0 s, t @ [Rd a (fst (load B s a)), Wr a (fst (load B s a) OR 1)])"
  by (simp add: set_bit_reg_0 load_logged store_logged)

lemma set_bit_reg_5_logged:
  "set_bit_reg (logged B) a 5 (s, t) =
     (set_bit_reg B a 5 s, t @ [Rd a (fst (load B s a)), Wr a (fst (load B s a) OR 0x20)])"
  by (simp add: set_bit_reg_5 load_logged store_logged)

lemma clear_bit_5_logged:
  "clear_bit (logged B) a 5 (s, t) =
     (clear_bit B a 5 s, t @ [Rd a (fst (load B s a)), Wr a (fst (load B s a) AND NOT 0x20)])"
  by (simp add: clear_bit_5 load_logged store_logged)

lemma delay_logged:
  assumes "delay_1000ms (logged B) (s, t) = Some (s', t')"
  shows "delay_1000ms B s = Some s'"
    and "\<exists>vs v w. t' = t @ [Wr TCCR1A_ADDR 0x00, Wr TCCR1B_ADDR 0x04,
                             Wr TCNT1L_ADDR 0xDB, Wr TCNT1H_ADDR 0x0B]
                        @ map (Rd TIFR1_ADDR) vs
                        @ [Rd TIFR1_ADDR v, Rd TIFR1_ADDR w, Wr TIFR1_ADDR (w OR 1)]
                   \<and> (\<forall>x\<in>set vs. \<not> bit x 0) \<and> bit v 0"
proof -
  let ?t4 = "t @ [Wr TCCR1A_ADDR 0x00, Wr TCCR1B_ADDR 0x04, Wr TCNT1L_ADDR 0xDB, Wr TCNT1H_ADDR 0x0B]"
  from assms obtain s5 t5 where
    p: "poll (logged B) (delay_armed B s, ?t4) = Some (s5, t5)"
    and r: "(s', t') = set_bit_reg (logged B) TIFR1_ADDR 0 (s5, t5)"
    by (auto simp add: delay_unfold delay_armed_logged split: option.splits)
  from poll_logged_fst[OF p] have p': "poll B (delay_armed B s) = Some s5" by simp
  from r have s': "s' = set_bit_reg B TIFR1_ADDR 0 s5"
    and t': "t' = t5 @ [Rd TIFR1_ADDR (fst (load B s5 TIFR1_ADDR)),
                       Wr TIFR1_ADDR (fst (load B s5 TIFR1_ADDR) OR 1)]"
    by (simp_all add: set_bit_reg_0_logged)
  from p' s' show "delay_1000ms B s = Some s'"
    by (simp add: delay_unfold)
  from poll_logged_trace[OF p] obtain vs v where
    "t5 = ?t4 @ map (Rd TIFR1_ADDR) vs @ [Rd TIFR1_ADDR v]" "\<forall>x\<in>set vs. \<not> bit x 0" "bit v 0"
    by auto
  with t' show "\<exists>vs v w. t' = t @ [Wr TCCR1A_ADDR 0x00, Wr TCCR1B_ADDR 0x04,
                             Wr TCNT1L_ADDR 0xDB, Wr TCNT1H_ADDR 0x0B]
                        @ map (Rd TIFR1_ADDR) vs
                        @ [Rd TIFR1_ADDR v, Rd TIFR1_ADDR w, Wr TIFR1_ADDR (w OR 1)]
                   \<and> (\<forall>x\<in>set vs. \<not> bit x 0) \<and> bit v 0"
    by (intro exI[of _ vs] exI[of _ v] exI[of _ "fst (load B s5 TIFR1_ADDR)"]) simp
qed

lemma delay_logged_ex:
  assumes "delay_1000ms B s = Some s'"
  shows "\<exists>t'. delay_1000ms (logged B) (s, t) = Some (s', t')"
proof -
  from assms obtain s5 where p: "poll B (delay_armed B s) = Some s5"
    and s': "s' = set_bit_reg B TIFR1_ADDR 0 s5"
    by (auto simp add: delay_unfold split: option.splits)
  from poll_logged_ex[OF p] obtain t5 where
    "poll (logged B) (delay_armed (logged B) (s, t)) = Some (s5, t5)"
    unfolding delay_armed_logged by blast
  with s' show ?thesis
    by (simp add: delay_unfold set_bit_reg_0_logged)
qed

lemma writes_to_append: "writes_to a (t @ u) = writes_to a t @ writes_to a u"
  by (induction a t rule: writes_to.induct) simp_all

lemma writes_to_reads: "writes_to a (map (Rd b) vs) = []"
  by (induction vs) simp_all

lemma load_timer: "load (timer sched) s a = timer_load sched s a"
  by (simp add: timer_def)

lemma store_timer: "store (timer sched) s a v = timer_store sched s a v"
  by (simp add: timer_def)

lemma tcnt1_less: "tcnt1 r < 65536"
proof -
  have "unat (r TCNT1H_ADDR) < 256" "unat (r TCNT1L_ADDR) < 256"
    using unsigned_less[of "r TCNT1H_ADDR", where 'a = nat]
      unsigned_less[of "r TCNT1L_ADDR", where 'a = nat] by simp_all
  then show ?thesis by (simp add: tcnt1_def)
qed

lemma tcnt1_upd:
  "tcnt1 (r(TCNT1L_ADDR := of_nat c, TCNT1H_ADDR := of_nat (c div 256))) = c mod 65536"
proof -
  have "c mod (256 * 256) = 256 * (c div 256 mod 256) + c mod 256"
    by (rule mod_mult2_eq)
  then have "256 * (c div 256 mod 256) + c mod 256 = c mod 65536"
    by simp
  then show ?thesis
    by (simp add: tcnt1_def addr_defs unat_of_nat)
qed

lemma tcnt1_upd_other:
  "a \<noteq> TCNT1L_ADDR \<Longrightarrow> a \<noteq> TCNT1H_ADDR \<Longrightarrow> tcnt1 (r(a := v)) = tcnt1 r"
  by (simp add: tcnt1_def)

lemma tcnt1_advance: "tcnt1 (regs (advance n s)) = (tcnt1 (regs s) + n) mod 65536"
proof -
  have "tcnt1 (r(TIFR1_ADDR := v)) = tcnt1 r" for r v
    by (rule tcnt1_upd_other) (simp_all add: addr_defs)
  then show ?thesis
    by (simp add: advance_def Let_def tcnt1_upd del: of_nat_add)
qed

lemma or1_absorb: "bit (x :: uint8_t) 0 \<Longrightarrow> x OR 1 = x"
  by (simp add: or_one_eq bit_0)

lemma regs_advance_other:
  "a \<noteq> TCNT1L_ADDR \<Longrightarrow> a \<noteq> TCNT1H_ADDR \<Longrightarrow> a \<noteq> TIFR1_ADDR \<Longrightarrow> regs (advance n s) a = regs s a"
  by (simp add: advance_def Let_def)

lemma tifr1_advance:
  "regs (advance n s) TIFR1_ADDR =
     (if 65536 \<le> tcnt1 (regs s) + n then regs s TIFR1_ADDR OR 1 else regs s TIFR1_ADDR)"
  by (simp add: advance_def Let_def addr_defs)

lemma elapsed_advance: "elapsed (advance n s) = elapsed s + n"
  by (simp add: advance_def Let_def)

lemma tov1_advance: "tov1 (advance n s) = (tov1 s \<or> 65536 \<le> tcnt1 (regs s) + n)"
  by (simp add: tov1_def tifr1_advance bit_simps)

text \<open>One polling iteration on the timer.\<close>

lemma poll_timer_unfold:
  "poll (timer sched) s =
     (if tov1 (advance (sched (steps s)) s)
      then Some ((advance (sched (steps s)) s)\<lparr>steps := Suc (steps s)\<rparr>)
      else poll (timer sched) ((advance (sched (steps s)) s)\<lparr>steps := Suc (steps s)\<rparr>))"
  by (subst poll_unfold) (simp add: load_timer timer_load_def Let_def tov1_def)

lemma poll_timer_sound:
  assumes "poll (timer sched) s = Some s'"
  shows "tov1 s' \<and> steps s < steps s' \<and> elapsed s \<le> elapsed s'
       \<and> (\<forall>a. a \<noteq> TCNT1L_ADDR \<longrightarrow> a \<noteq> TCNT1H_ADDR \<longrightarrow> a \<noteq> TIFR1_ADDR \<longrightarrow> regs s' a = regs s a)
       \<and> regs s' TIFR1_ADDR = regs s TIFR1_ADDR OR 1
       \<and> (\<not> tov1 s \<longrightarrow> elapsed s + (65536 - tcnt1 (regs s)) \<le> elapsed s')
       \<and> (\<not> tov1 s \<longrightarrow> tick_per_access sched \<longrightarrow>
            elapsed s' = elapsed s + (65536 - tcnt1 (regs s)) \<and> tcnt1 (regs s') = 0)"
proof -
  let ?Q = "\<lambda>sched s s'. tov1 s' \<and> steps s < steps s' \<and> elapsed s \<le> elapsed s'
       \<and> (\<forall>a. a \<noteq> TCNT1L_ADDR \<longrightarrow> a \<noteq> TCNT1H_ADDR \<longrightarrow> a \<noteq> TIFR1_ADDR \<longrightarrow> regs s' a = regs s a)
       \<and> regs s' TIFR1_ADDR = regs s TIFR1_ADDR OR 1
       \<and> (\<not> tov1 s \<longrightarrow> elapsed s + (65536 - tcnt1 (regs s)) \<le> elapsed s')
       \<and> (\<not> tov1 s \<longrightarrow> tick_per_access sched \<longrightarrow>
            elapsed s' = elapsed s + (65536 - tcnt1 (regs s)) \<and> tcnt1 (regs s') = 0)"
  let ?P = "\<lambda>(B :: mcu bus) s s'. \<forall>sched. B = timer sched \<longrightarrow> ?Q sched s s'"
  have "?P (timer sched) s s'"
  proof (rule poll.raw_induct[where P = ?P, OF _ assms], goal_cases)
    case (1 pl B s s')
    show ?case
    proof (intro allI impI)
      fix sched
      assume B: "B = timer sched"
      let ?n = "sched (steps s)"
      let ?a = "advance ?n s"
      let ?s1 = "?a\<lparr>steps := Suc (steps s)\<rparr>"
      have c: "tcnt1 (regs s) < 65536" by (rule tcnt1_less)
      show "?Q sched s s'"
      proof (cases "tov1 ?a")
        case True
        with 1(2) have s': "s' = ?s1"
          by (simp add: B read_reg_def load_timer timer_load_def Let_def flag_test tov1_def)
        have le1: "?n \<le> 1" if "tick_per_access sched"
          using that by (simp add: tick_per_access_def)
        have g1: "tov1 s'" using True by (simp add: s' tov1_def)
        have g2: "steps s < steps s'" by (simp add: s')
        have g3: "elapsed s \<le> elapsed s'" by (simp add: s' elapsed_advance)
        have g4: "\<forall>a. a \<noteq> TCNT1L_ADDR \<longrightarrow> a \<noteq> TCNT1H_ADDR \<longrightarrow> a \<noteq> TIFR1_ADDR \<longrightarrow> regs s' a = regs s a"
          by (simp add: s' regs_advance_other)
        have g5: "regs s' TIFR1_ADDR = regs s TIFR1_ADDR OR 1"
          using True by (auto simp add: s' tifr1_advance tov1_advance tov1_def or1_absorb)
        have w: "65536 \<le> tcnt1 (regs s) + ?n" if "\<not> tov1 s"
          using True that by (simp add: tov1_advance)
        have g6: "elapsed s + (65536 - tcnt1 (regs s)) \<le> elapsed s'" if "\<not> tov1 s"
          using w[OF that] by (simp add: s' elapsed_advance)
        have g7: "elapsed s' = elapsed s + (65536 - tcnt1 (regs s))" "tcnt1 (regs s') = 0"
          if "\<not> tov1 s" "tick_per_access sched"
        proof -
          from w[OF that(1)] le1[OF that(2)] c have e: "tcnt1 (regs s) + ?n = 65536" by linarith
          then show "tcnt1 (regs s') = 0"
            by (simp add: s' tcnt1_advance)
          from e show "elapsed s' = elapsed s + (65536 - tcnt1 (regs s))"
            by (simp add: s' elapsed_advance)
        qed
        show ?thesis
          by (intro conjI impI g1 g2 g3 g4 g5 g6 g7)
      next
        case False
        with 1(2) have "pl B ?s1 = Some s'"
          by (simp add: B read_reg_def load_timer timer_load_def Let_def flag_test tov1_def)
        note IH = 1(1)[OF this, rule_format, OF B]
        from False have nt: "\<not> tov1 s" and nw: "tcnt1 (regs s) + ?n < 65536"
          by (simp_all add: tov1_advance)
        have t1: "\<not> tov1 ?s1" using False by (simp add: tov1_def)
        have c1: "tcnt1 (regs ?s1) = tcnt1 (regs s) + ?n"
          using nw by (simp add: tcnt1_advance)
        have f1: "regs ?s1 TIFR1_ADDR = regs s TIFR1_ADDR"
          using nw by (simp add: tifr1_advance)
        have e1: "elapsed ?s1 = elapsed s + ?n" by (simp add: elapsed_advance)
        have o1: "regs ?s1 a = regs s a"
          if "a \<noteq> TCNT1L_ADDR" "a \<noteq> TCNT1H_ADDR" "a \<noteq> TIFR1_ADDR" for a
          using that by (simp add: regs_advance_other)
        have st1: "steps ?s1 = Suc (steps s)" by simp
        from IH have i1: "tov1 s'" and i2: "steps ?s1 < steps s'" and i3: "elapsed ?s1 \<le> elapsed s'"
          and i4: "\<forall>a. a \<noteq> TCNT1L_ADDR \<longrightarrow> a \<noteq> TCNT1H_ADDR \<longrightarrow> a \<noteq> TIFR1_ADDR \<longrightarrow> regs s' a = regs ?s1 a"
          and i5: "regs s' TIFR1_ADDR = regs ?s1 TIFR1_ADDR OR 1"
          and i6: "\<not> tov1 ?s1 \<longrightarrow> elapsed ?s1 + (65536 - tcnt1 (regs ?s1)) \<le> elapsed s'"
          and i7: "\<not> tov1 ?s1 \<longrightarrow> tick_per_access sched \<longrightarrow>
            elapsed s' = elapsed ?s1 + (65536 - tcnt1 (regs ?s1)) \<and> tcnt1 (regs s') = 0"
          by - (elim conjE, assumption)+
        have g2: "steps s < steps s'" using i2 unfolding st1 by linarith
        have g3: "elapsed s \<le> elapsed s'" using i3 unfolding e1 by linarith
        have g4: "\<forall>a. a \<noteq> TCNT1L_ADDR \<longrightarrow> a \<noteq> TCNT1H_ADDR \<longrightarrow> a \<noteq> TIFR1_ADDR \<longrightarrow> regs s' a = regs s a"
        proof (intro allI impI)
          fix a assume a: "a \<noteq> TCNT1L_ADDR" "a \<noteq> TCNT1H_ADDR" "a \<noteq> TIFR1_ADDR"
          from i4[rule_format, OF a] o1[OF a] show "regs s' a = regs s a" by (rule trans)
        qed
        have g5: "regs s' TIFR1_ADDR = regs s TIFR1_ADDR OR 1"
          using i5 unfolding f1 .
        have g6: "elapsed s + (65536 - tcnt1 (regs s)) \<le> elapsed s'"
          using i6[rule_format, OF t1] nw unfolding c1 e1 by linarith
        have g7: "elapsed s' = elapsed s + (65536 - tcnt1 (regs s))" "tcnt1 (regs s') = 0"
          if "tick_per_access sched"
          using i7[rule_format, OF t1 that] nw unfolding c1 e1 by linarith+
        show ?thesis
          by (intro conjI impI i1 g2 g3 g4 g5 g6 g7)
      qed
    qed
  qed
  then show ?thesis by blast
qed

lemma poll_timer_stale:
  assumes "tov1 s"
  shows "poll (timer sched) s = Some ((advance (sched (steps s)) s)\<lparr>steps := Suc (steps s)\<rparr>)"
  using assms by (subst poll_timer_unfold) (simp add: tov1_advance)

lemma poll_timer_wait:
  assumes outer: "\<And>s1. tcnt1 (regs s1) > c \<Longrightarrow> \<exists>s'. poll (timer sched) s1 = Some s'"
    and j: "0 < sched j"
  shows "steps s \<le> j \<Longrightarrow> \<not> tov1 s \<Longrightarrow> tcnt1 (regs s) = c \<Longrightarrow> \<exists>s'. poll (timer sched) s = Some s'"
proof (induction "j - steps s" arbitrary: s)
  case 0
  let ?n = "sched (steps s)"
  let ?a = "advance ?n s"
  let ?s1 = "?a\<lparr>steps := Suc (steps s)\<rparr>"
  from 0 have "steps s = j" by simp
  with j have n: "0 < ?n" by simp
  show ?case
  proof (cases "tov1 ?a")
    case True
    then show ?thesis by (subst poll_timer_unfold) simp
  next
    case False
    then have "tcnt1 (regs s) + ?n < 65536" by (simp add: tov1_advance)
    with n 0 have "tcnt1 (regs ?s1) > c" by (simp add: tcnt1_advance)
    from outer[OF this] False show ?thesis by (subst poll_timer_unfold) simp
  qed
next
  case (Suc d)
  let ?n = "sched (steps s)"
  let ?a = "advance ?n s"
  let ?s1 = "?a\<lparr>steps := Suc (steps s)\<rparr>"
  show ?case
  proof (cases "tov1 ?a")
    case True
    then show ?thesis by (subst poll_timer_unfold) simp
  next
    case False
    then have nw: "tcnt1 (regs s) + ?n < 65536" by (simp add: tov1_advance)
    show ?thesis
    proof (cases "?n = 0")
      case n0: True
      have "d = j - steps ?s1" using Suc(2) by simp
      moreover have "steps ?s1 \<le> j" using Suc(2) by simp
      moreover have "\<not> tov1 ?s1" using False by (simp add: tov1_def)
      moreover have "tcnt1 (regs ?s1) = c" using nw n0 Suc(5) by (simp add: tcnt1_advance)
      ultimately have "\<exists>s'. poll (timer sched) ?s1 = Some s'" by (rule Suc(1))
      with False show ?thesis by (subst poll_timer_unfold) simp
    next
      case False
      with nw Suc(5) have "tcnt1 (regs ?s1) > c" by (simp add: tcnt1_advance)
      from outer[OF this] \<open>\<not> tov1 ?a\<close> show ?thesis by (subst poll_timer_unfold) simp
    qed
  qed
qed

lemma poll_timer_terminates:
  assumes "ticks_forever sched"
  shows "\<exists>s'. poll (timer sched) s = Some s'"
proof (induction "65536 - tcnt1 (regs s)" arbitrary: s rule: less_induct)
  case less
  show ?case
  proof (cases "tov1 s")
    case True
    then show ?thesis by (simp add: poll_timer_stale)
  next
    case False
    from assms obtain j where j: "steps s \<le> j" "0 < sched j"
      unfolding ticks_forever_def by blast
    have "\<exists>s'. poll (timer sched) s1 = Some s'" if "tcnt1 (regs s1) > tcnt1 (regs s)" for s1
    proof -
      have "tcnt1 (regs s1) < 65536" by (rule tcnt1_less)
      with that have "65536 - tcnt1 (regs s1) < 65536 - tcnt1 (regs s)" by linarith
      then show ?thesis by (rule less)
    qed
    from poll_timer_wait[OF this j(2) j(1) False refl] show ?thesis .
  qed
qed

lemma addr_neq [simp]:
  "DDRB_ADDR \<noteq> PORTB_ADDR" "DDRB_ADDR \<noteq> TCCR1A_ADDR" "DDRB_ADDR \<noteq> TCCR1B_ADDR"
  "DDRB_ADDR \<noteq> TCNT1L_ADDR" "DDRB_ADDR \<noteq> TCNT1H_ADDR" "DDRB_ADDR \<noteq> TIFR1_ADDR"
  "PORTB_ADDR \<noteq> DDRB_ADDR" "PORTB_ADDR \<noteq> TCCR1A_ADDR" "PORTB_ADDR \<noteq> TCCR1B_ADDR"
  "PORTB_ADDR \<noteq> TCNT1L_ADDR" "PORTB_ADDR \<noteq> TCNT1H_ADDR" "PORTB_ADDR \<noteq> TIFR1_ADDR"
  "TCCR1A_ADDR \<noteq> DDRB_ADDR" "TCCR1A_ADDR \<noteq> PORTB_ADDR" "TCCR1A_ADDR \<noteq> TCCR1B_ADDR"
  "TCCR1A_ADDR \<noteq> TCNT1L_ADDR" "TCCR1A_ADDR \<noteq> TCNT1H_ADDR" "TCCR1A_ADDR \<noteq> TIFR1_ADDR"
  "TCCR1B_ADDR \<noteq> DDRB_ADDR" "TCCR1B_ADDR \<noteq> PORTB_ADDR" "TCCR1B_ADDR \<noteq> TCCR1A_ADDR"
  "TCCR1B_ADDR \<noteq> TCNT1L_ADDR" "TCCR1B_ADDR \<noteq> TCNT1H_ADDR" "TCCR1B_ADDR \<noteq> TIFR1_ADDR"
  "TCNT1L_ADDR \<noteq> DDRB_ADDR" "TCNT1L_ADDR \<noteq> PORTB_ADDR" "TCNT1L_ADDR \<noteq> TCCR1A_ADDR"
  "TCNT1L_ADDR \<noteq> TCCR1B_ADDR" "TCNT1L_ADDR \<noteq> TCNT1H_ADDR" "TCNT1L_ADDR \<noteq> TIFR1_ADDR"
  "TCNT1H_ADDR \<noteq> DDRB_ADDR" "TCNT1H_ADDR \<noteq> PORTB_ADDR" "TCNT1H_ADDR \<noteq> TCCR1A_ADDR"
  "TCNT1H_ADDR \<noteq> TCCR1B_ADDR" "TCNT1H_ADDR \<noteq> TCNT1L_ADDR" "TCNT1H_ADDR \<noteq> TIFR1_ADDR"
  "TIFR1_ADDR \<noteq> DDRB_ADDR" "TIFR1_ADDR \<noteq> PORTB_ADDR" "TIFR1_ADDR \<noteq> TCCR1A_ADDR"
  "TIFR1_ADDR \<noteq> TCCR1B_ADDR" "TIFR1_ADDR \<noteq> TCNT1L_ADDR" "TIFR1_ADDR \<noteq> TCNT1H_ADDR"
  by (simp_all add: addr_defs)

lemma unat_tcnt1l_advance:
  "unat (regs (advance n s) TCNT1L_ADDR) = (tcnt1 (regs s) + n) mod 256"
  by (simp add: advance_def Let_def addr_defs unat_of_nat del: of_nat_add)

lemma unat_tcnt1h_advance:
  "unat (regs (advance n s) TCNT1H_ADDR) = (tcnt1 (regs s) + n) div 256 mod 256"
  by (simp add: advance_def Let_def addr_defs unat_of_nat del: of_nat_add)

lemma steps_timer_store: "steps (timer_store sched s a v) = Suc (steps s)"
  by (simp add: timer_store_def Let_def)

lemma elapsed_timer_store: "elapsed (timer_store sched s a v) = elapsed s + sched (steps s)"
  by (simp add: timer_store_def Let_def elapsed_advance)

lemma regs_timer_store_same:
  "regs (timer_store sched s a v) a =
     (if a = TIFR1_ADDR then regs (advance (sched (steps s)) s) a AND NOT v else v)"
  by (simp add: timer_store_def Let_def)

lemma regs_timer_store_other:
  "b \<noteq> a \<Longrightarrow> regs (timer_store sched s a v) b = regs (advance (sched (steps s)) s) b"
  by (auto simp add: timer_store_def Let_def)

lemma tov1_timer_store:
  "a \<noteq> TIFR1_ADDR \<Longrightarrow> tov1 (timer_store sched s a v) = tov1 (advance (sched (steps s)) s)"
  by (simp add: tov1_def regs_timer_store_other)

lemma tcnt1_timer_store_other:
  "a \<noteq> TCNT1L_ADDR \<Longrightarrow> a \<noteq> TCNT1H_ADDR \<Longrightarrow>
   tcnt1 (regs (timer_store sched s a v)) = (tcnt1 (regs s) + sched (steps s)) mod 65536"
  by (simp add: timer_store_def Let_def tcnt1_upd_other tcnt1_advance)

lemma tcnt1_timer_store_low:
  "tcnt1 (regs (timer_store sched s TCNT1L_ADDR v)) =
     256 * ((tcnt1 (regs s) + sched (steps s)) div 256 mod 256) + unat v"
  by (simp add: tcnt1_def regs_timer_store_same regs_timer_store_other unat_tcnt1h_advance)

lemma tcnt1_timer_store_high:
  "tcnt1 (regs (timer_store sched s TCNT1H_ADDR v)) =
     256 * unat v + (tcnt1 (regs s) + sched (steps s)) mod 256"
  by (simp add: tcnt1_def regs_timer_store_same regs_timer_store_other unat_tcnt1l_advance)

lemma steps_timer_load: "steps (snd (timer_load sched s a)) = Suc (steps s)"
  by (simp add: timer_load_def Let_def)

lemma elapsed_timer_load: "elapsed (snd (timer_load sched s a)) = elapsed s + sched (steps s)"
  by (simp add: timer_load_def Let_def elapsed_advance)

lemma regs_timer_load: "regs (snd (timer_load sched s a)) = regs (advance (sched (steps s)) s)"
  by (simp add: timer_load_def Let_def)

lemma fst_timer_load: "fst (timer_load sched s a) = regs (advance (sched (steps s)) s) a"
  by (simp add: timer_load_def Let_def)

lemma delay_timer_returns:
  assumes "ticks_forever sched"
  shows "\<exists>s'. delay_1000ms (timer sched) s = Some s'"
proof -
  from poll_timer_terminates[OF assms] obtain s5 where
    "poll (timer sched) (delay_armed (timer sched) s) = Some s5" by blast
  then show ?thesis by (simp add: delay_unfold)
qed

lemma delay_timer_flag_clear:
  assumes "delay_1000ms (timer sched) s = Some s'"
  shows "\<not> tov1 s'"
proof -
  from assms obtain s5 where
    "s' = set_bit_reg (timer sched) TIFR1_ADDR 0 s5"
    by (auto simp add: delay_unfold split: option.splits)
  then show ?thesis
    by (simp add: set_bit_reg_0 load_timer store_timer tov1_def regs_timer_store_same bit_simps)
qed

lemma regs_delay_armed_timer:
  assumes "a \<noteq> TCNT1L_ADDR" "a \<noteq> TCNT1H_ADDR" "a \<noteq> TIFR1_ADDR"
  shows "regs (delay_armed (timer sched) s) a =
           (if a = TCCR1A_ADDR then 0x00 else if a = TCCR1B_ADDR then 0x04 else regs s a)"
  using assms
  by (simp add: delay_armed_def write_reg_def store_timer timer_store_def Let_def
      regs_advance_other)

lemma delay_timer_frame:
  assumes "delay_1000ms (timer sched) s = Some s'"
    and a: "a \<noteq> TCNT1L_ADDR" "a \<noteq> TCNT1H_ADDR" "a \<noteq> TIFR1_ADDR"
  shows "regs s' a = (if a = TCCR1A_ADDR then 0x00 else if a = TCCR1B_ADDR then 0x04 else regs s a)"
proof -
  from assms obtain s5 where p: "poll (timer sched) (delay_armed (timer sched) s) = Some s5"
    and s': "s' = set_bit_reg (timer sched) TIFR1_ADDR 0 s5"
    by (auto simp add: delay_unfold split: option.splits)
  from poll_timer_sound[OF p] a have "regs s5 a = regs (delay_armed (timer sched) s) a"
    by blast
  moreover have "regs s' a = regs s5 a"
    using a by (simp add: s' set_bit_reg_0 load_timer store_timer regs_timer_store_other
        regs_timer_load regs_advance_other steps_timer_load)
  ultimately show ?thesis
    using a by (simp add: regs_delay_armed_timer)
qed

lemma delay_armed_timer_exact:
  assumes tpa: "tick_per_access sched" and nf: "\<not> tov1 s" and c: "tcnt1 (regs s) \<le> 65532"
  shows "\<not> tov1 (delay_armed (timer sched) s)"
    and "tcnt1 (regs (delay_armed (timer sched) s)) = 3035 + sched (steps s + 3)"
    and "elapsed (delay_armed (timer sched) s) =
           elapsed s + sched (steps s) + sched (steps s + 1) + sched (steps s + 2) + sched (steps s + 3)"
    and "steps (delay_armed (timer sched) s) = steps s + 4"
proof -
  let ?s1 = "timer_store sched s TCCR1A_ADDR 0x00"
  let ?s2 = "timer_store sched ?s1 TCCR1B_ADDR 0x04"
  let ?s3 = "timer_store sched ?s2 TCNT1L_ADDR 0xDB"
  let ?s4 = "timer_store sched ?s3 TCNT1H_ADDR 0x0B"
  let ?n0 = "sched (steps s)"
  let ?n1 = "sched (steps s + 1)"
  let ?n2 = "sched (steps s + 2)"
  let ?n3 = "sched (steps s + 3)"
  have n: "?n0 \<le> 1" "?n1 \<le> 1" "?n2 \<le> 1" "?n3 \<le> 1"
    using tpa by (simp_all add: tick_per_access_def)
  have s4: "delay_armed (timer sched) s = ?s4"
    by (simp add: delay_armed_def write_reg_def store_timer)
  have st1: "steps ?s1 = steps s + 1" by (simp add: steps_timer_store)
  have st2: "steps ?s2 = steps s + 2" by (simp add: steps_timer_store)
  have st3: "steps ?s3 = steps s + 3" by (simp add: steps_timer_store)
  have st4: "steps ?s4 = steps s + 4" by (simp add: steps_timer_store)
  have c1: "tcnt1 (regs ?s1) = tcnt1 (regs s) + ?n0"
    using c n(1) by (simp add: tcnt1_timer_store_other)
  have f1: "\<not> tov1 ?s1"
    using c n(1) nf by (simp add: tov1_timer_store tov1_advance)
  have c2: "tcnt1 (regs ?s2) = tcnt1 (regs s) + ?n0 + ?n1"
    using c n(1,2) by (simp add: tcnt1_timer_store_other[of _ _ ?s1] c1 st1)
  have f2: "\<not> tov1 ?s2"
    using c n(1,2) f1 by (simp add: tov1_timer_store[of _ _ ?s1] tov1_advance c1 st1)
  have f3: "\<not> tov1 ?s3"
    using c n(1,2,3) f2 by (simp add: tov1_timer_store[of _ _ ?s2] tov1_advance c2 st2)
  obtain h where c3: "tcnt1 (regs ?s3) = 256 * h + 219" and h: "h < 256"
  proof
    show "tcnt1 (regs ?s3) = 256 * ((tcnt1 (regs ?s2) + sched (steps ?s2)) div 256 mod 256) + 219"
      by (simp add: tcnt1_timer_store_low[of _ ?s2])
    show "(tcnt1 (regs ?s2) + sched (steps ?s2)) div 256 mod 256 < 256"
      by simp
  qed
  have nw: "tcnt1 (regs ?s3) + ?n3 < 65536"
    using h n(4) unfolding c3 by linarith
  have f4: "\<not> tov1 ?s4"
    using nw f3 by (simp add: tov1_timer_store[of _ _ ?s3] tov1_advance st3)
  have m: "(256 * h + 219 + ?n3) mod 256 = 219 + ?n3"
  proof -
    have "(256 * h + (219 + ?n3)) mod 256 = (219 + ?n3) mod 256"
      by (rule mod_mult_self4)
    also have "\<dots> = 219 + ?n3"
      using n(4) by simp
    finally show ?thesis by (simp add: add.assoc)
  qed
  have c4: "tcnt1 (regs ?s4) = 3035 + ?n3"
    using m by (simp add: tcnt1_timer_store_high[of _ ?s3] c3 st3)
  have e4: "elapsed ?s4 = elapsed s + ?n0 + ?n1 + ?n2 + ?n3"
    by (simp add: elapsed_timer_store[of _ ?s3] elapsed_timer_store[of _ ?s2]
        elapsed_timer_store[of _ ?s1] elapsed_timer_store[of _ s] st1 st2 st3)
  show "\<not> tov1 (delay_armed (timer sched) s)" unfolding s4 by (rule f4)
  show "tcnt1 (regs (delay_armed (timer sched) s)) = 3035 + sched (steps s + 3)"
    unfolding s4 by (rule c4)
  show "elapsed (delay_armed (timer sched) s) =
           elapsed s + sched (steps s) + sched (steps s + 1) + sched (steps s + 2) + sched (steps s + 3)"
    unfolding s4 by (rule e4)
  show "steps (delay_armed (timer sched) s) = steps s + 4"
    unfolding s4 by (rule st4)
qed

lemma and_not_or1_self: "(w :: uint8_t) AND NOT (w OR 1) = 0"
  by (rule bit_word_eqI) (simp add: bit_simps)

lemma set_bit_tifr1_timer_exact:
  assumes tpa: "tick_per_access sched" and c: "tcnt1 (regs s5) = 0"
  shows "regs (set_bit_reg (timer sched) TIFR1_ADDR 0 s5) TIFR1_ADDR = 0"
    and "tcnt1 (regs (set_bit_reg (timer sched) TIFR1_ADDR 0 s5)) \<le> 2"
    and "elapsed s5 \<le> elapsed (set_bit_reg (timer sched) TIFR1_ADDR 0 s5)"
    and "elapsed (set_bit_reg (timer sched) TIFR1_ADDR 0 s5) \<le> elapsed s5 + 2"
    and "steps (set_bit_reg (timer sched) TIFR1_ADDR 0 s5) = steps s5 + 2"
proof -
  let ?n5 = "sched (steps s5)"
  let ?n6 = "sched (steps s5 + 1)"
  let ?l = "snd (timer_load sched s5 TIFR1_ADDR)"
  let ?w = "fst (timer_load sched s5 TIFR1_ADDR)"
  let ?s' = "timer_store sched ?l TIFR1_ADDR (?w OR 1)"
  have n: "?n5 \<le> 1" "?n6 \<le> 1"
    using tpa by (simp_all add: tick_per_access_def)
  have s': "set_bit_reg (timer sched) TIFR1_ADDR 0 s5 = ?s'"
    by (simp add: set_bit_reg_0 load_timer store_timer)
  have stl: "steps ?l = steps s5 + 1" by (simp add: steps_timer_load)
  have cl: "tcnt1 (regs ?l) = ?n5"
    using n(1) c by (simp add: regs_timer_load tcnt1_advance)
  have w: "?w = regs ?l TIFR1_ADDR"
    by (simp add: fst_timer_load regs_timer_load)
  have "regs (advance ?n6 ?l) TIFR1_ADDR = ?w"
    using n cl by (simp add: tifr1_advance w)
  moreover have "regs ?s' TIFR1_ADDR = regs (advance ?n6 ?l) TIFR1_ADDR AND NOT (?w OR 1)"
    unfolding regs_timer_store_same stl by simp
  ultimately have "regs ?s' TIFR1_ADDR = ?w AND NOT (?w OR 1)"
    by (rule subst)
  then have "regs ?s' TIFR1_ADDR = 0"
    unfolding and_not_or1_self .
  then show "regs (set_bit_reg (timer sched) TIFR1_ADDR 0 s5) TIFR1_ADDR = 0"
    unfolding s' .
  have "tcnt1 (regs ?s') = ?n5 + ?n6"
    using n by (simp add: tcnt1_timer_store_other[of _ _ ?l] cl stl)
  with n show "tcnt1 (regs (set_bit_reg (timer sched) TIFR1_ADDR 0 s5)) \<le> 2"
    unfolding s' by linarith
  have e: "elapsed ?s' = elapsed s5 + ?n5 + ?n6"
    by (simp add: elapsed_timer_store[of _ ?l] elapsed_timer_load stl)
  from e show "elapsed s5 \<le> elapsed (set_bit_reg (timer sched) TIFR1_ADDR 0 s5)"
    unfolding s' by linarith
  from e n show "elapsed (set_bit_reg (timer sched) TIFR1_ADDR 0 s5) \<le> elapsed s5 + 2"
    unfolding s' by linarith
  show "steps (set_bit_reg (timer sched) TIFR1_ADDR 0 s5) = steps s5 + 2"
    unfolding s' by (simp add: steps_timer_store stl)
qed

lemma delay_timer_exact:
  assumes tpa: "tick_per_access sched" and nf: "\<not> tov1 s" and c: "tcnt1 (regs s) \<le> 65532"
    and d: "delay_1000ms (timer sched) s = Some s'"
  shows "elapsed s + 62501 \<le> elapsed s'"
    and "elapsed s' \<le> elapsed s + 62506"
    and "tcnt1 (regs s') \<le> 2"
    and "regs s' TIFR1_ADDR = 0"
proof -
  let ?s4 = "delay_armed (timer sched) s"
  from d obtain s5 where p: "poll (timer sched) ?s4 = Some s5"
    and s': "s' = set_bit_reg (timer sched) TIFR1_ADDR 0 s5"
    by (auto simp add: delay_unfold split: option.splits)
  note a = delay_armed_timer_exact[OF tpa nf c]
  have n: "sched (steps s) \<le> 1" "sched (steps s + 1) \<le> 1" "sched (steps s + 2) \<le> 1"
    "sched (steps s + 3) \<le> 1"
    using tpa by (simp_all add: tick_per_access_def)
  from poll_timer_sound[OF p] a(1) tpa
  have e5: "elapsed s5 = elapsed ?s4 + (65536 - tcnt1 (regs ?s4))" and c5: "tcnt1 (regs s5) = 0"
    by blast+
  note b = set_bit_tifr1_timer_exact[OF tpa c5]
  from e5 have e5': "elapsed s5 = elapsed s + sched (steps s) + sched (steps s + 1) + sched (steps s + 2) + 62501"
    unfolding a(2) a(3) using n(4) by linarith
  from e5' b(3) show "elapsed s + 62501 \<le> elapsed s'" unfolding s' by linarith
  from e5' b(4) n show "elapsed s' \<le> elapsed s + 62506" unfolding s' by linarith
  from b(2) show "tcnt1 (regs s') \<le> 2" unfolding s' .
  from b(1) show "regs s' TIFR1_ADDR = 0" unfolding s' .
qed

lemma or_trunc:
  "(ucast ((ucast (ucast (x OR y :: c_int) :: uint8_t) :: c_int) OR y) :: uint8_t) = ucast (x OR y)"
  by (rule bit_word_eqI) (auto simp add: bit_simps)

lemma and_not_trunc:
  "(ucast ((ucast (ucast (x AND NOT y :: c_int) :: uint8_t) :: c_int) AND NOT y) :: uint8_t)
     = ucast (x AND NOT y)"
  by (rule bit_word_eqI) (auto simp add: bit_simps)

lemma and_not_or_trunc:
  "(ucast ((ucast (ucast (x OR y :: c_int) :: uint8_t) :: c_int) AND NOT y) :: uint8_t)
     = ucast (x AND NOT y)"
  by (rule bit_word_eqI) (auto simp add: bit_simps)

lemma bit_set_bit_reg_ram:
  "unat b \<le> 7 \<Longrightarrow>
   bit (fst (read_reg ram a (set_bit_reg ram a b m))) j = (j = unat b \<or> bit (m a) j)"
  by (auto simp add: read_reg_def set_bit_reg_def ram_def bit_simps dest: bit_imp_le_length)

lemma bit_clear_bit_ram:
  "bit (fst (read_reg ram a (clear_bit ram a b m))) j = (j \<noteq> unat b \<and> bit (m a) j)"
  by (auto simp add: read_reg_def clear_bit_def ram_def bit_simps dest: bit_imp_le_length)

lemma delay_logged_final:
  assumes "delay_1000ms (logged B) (s, t) = Some (s', t')"
  shows "\<exists>s5 u. poll B (delay_armed B s) = Some s5 \<and> s' = set_bit_reg B TIFR1_ADDR 0 s5
           \<and> t' = u @ [Rd TIFR1_ADDR (fst (load B s5 TIFR1_ADDR)),
                        Wr TIFR1_ADDR (fst (load B s5 TIFR1_ADDR) OR 1)]"
proof -
  let ?t4 = "t @ [Wr TCCR1A_ADDR 0x00, Wr TCCR1B_ADDR 0x04, Wr TCNT1L_ADDR 0xDB, Wr TCNT1H_ADDR 0x0B]"
  from assms obtain s5 t5 where
    p: "poll (logged B) (delay_armed B s, ?t4) = Some (s5, t5)"
    and r: "(s', t') = set_bit_reg (logged B) TIFR1_ADDR 0 (s5, t5)"
    by (auto simp add: delay_unfold delay_armed_logged split: option.splits)
  from poll_logged_fst[OF p] have "poll B (delay_armed B s) = Some s5" by simp
  moreover from r have "s' = set_bit_reg B TIFR1_ADDR 0 s5"
    and "t' = t5 @ [Rd TIFR1_ADDR (fst (load B s5 TIFR1_ADDR)),
                       Wr TIFR1_ADDR (fst (load B s5 TIFR1_ADDR) OR 1)]"
    by (simp_all add: set_bit_reg_0_logged)
  ultimately show ?thesis by blast
qed

lemma write_positions_append:
  "write_positions a i (t @ u) = write_positions a i t @ write_positions a (i + length t) u"
  by (induction a i t rule: write_positions.induct) simp_all

lemma write_positions_reads: "write_positions a i (map (Rd b) vs) = []"
  by (induction vs arbitrary: i) simp_all



lemma load_ram: "load ram m a = (m a, m)"
  by (simp add: ram_def)

lemma store_ram: "store ram m a v = m(a := v)"
  by (simp add: ram_def)

lemma delay_ram_flag_set:
  "delay_1000ms (logged ram) (flag_set_mem, []) = Some (flag_set_mem_after, flag_set_trace)"
proof -
  let ?m4 = "flag_set_mem(TCCR1A_ADDR := 0x00, TCCR1B_ADDR := 0x04, TCNT1L_ADDR := 0xDB, TCNT1H_ADDR := 0x0B)"
  have a: "delay_armed ram flag_set_mem = ?m4"
    by (simp add: delay_armed_def write_reg_def store_ram)
  have f: "?m4 TIFR1_ADDR = 1" by (simp add: flag_set_mem_def)
  have p: "poll (logged ram) (?m4, t) = Some (?m4, t @ [Rd TIFR1_ADDR 1])" for t
    by (subst poll_unfold) (simp add: load_logged load_ram f del: fun_upd_apply)
  have e: "?m4(TIFR1_ADDR := 1) = flag_set_mem_after"
    unfolding flag_set_mem_after_def by (rule ext) (simp add: flag_set_mem_def)
  have c: "set_bit_reg ram TIFR1_ADDR 0 ?m4 = flag_set_mem_after"
    by (simp add: set_bit_reg_0 load_ram store_ram f e del: fun_upd_apply)
  show ?thesis
    by (simp add: delay_unfold delay_armed_logged a p set_bit_reg_0_logged c
        load_ram f flag_set_trace_def del: fun_upd_apply)
qed

lemma ticks_1: "ticks 1 = 62500" "ticks (Suc 0) = 62500"
  by (simp_all add: ticks_def clock_frequency_def prescaler_def)

lemma preload_written_delay_trace:
  "preload_written
     ([Wr TCCR1A_ADDR 0x00, Wr TCCR1B_ADDR 0x04, Wr TCNT1L_ADDR 0xDB, Wr TCNT1H_ADDR 0x0B]
      @ map (Rd TIFR1_ADDR) vs
      @ [Rd TIFR1_ADDR v, Rd TIFR1_ADDR w, Wr TIFR1_ADDR x]) = Some 0x0BDB"
  by (simp add: preload_written_def writes_to_append writes_to_reads)

lemma ticks_forever_steady: "ticks_forever steady"
  by (auto simp add: ticks_forever_def steady_def)

lemma or1_and_not_or1: "((w :: uint8_t) OR 1) AND NOT (w OR 1) = 0"
  by (rule bit.conj_cancel_right)

lemma advance_0: "advance 0 s = s"
proof -
  have l: "unat (regs s TCNT1L_ADDR) < 256" and h: "unat (regs s TCNT1H_ADDR) < 256"
    using unsigned_less[of "regs s TCNT1L_ADDR", where 'a = nat]
      unsigned_less[of "regs s TCNT1H_ADDR", where 'a = nat] by simp_all
  have "(of_nat (tcnt1 (regs s)) :: uint8_t) = regs s TCNT1L_ADDR"
    using l by (simp add: word_unat_eq_iff unat_of_nat tcnt1_def del: of_nat_add of_nat_mult)
  moreover have "(of_nat (tcnt1 (regs s) div 256) :: uint8_t) = regs s TCNT1H_ADDR"
    using l h by (simp add: word_unat_eq_iff unat_of_nat tcnt1_def del: of_nat_add of_nat_mult)
  moreover have "\<not> 65536 \<le> tcnt1 (regs s)"
    using tcnt1_less[of "regs s"] by simp
  ultimately show ?thesis
    by (simp add: advance_def)
qed

lemma timer_store_stopped:
  "timer_store stopped s a v =
     s\<lparr>regs := (if a = TIFR1_ADDR then (regs s)(a := regs s a AND NOT v) else (regs s)(a := v)),
       steps := Suc (steps s)\<rparr>"
  by (simp add: timer_store_def stopped_def advance_0 Let_def)

lemma timer_load_stopped:
  "timer_load stopped s a = (regs s a, s\<lparr>steps := Suc (steps s)\<rparr>)"
  by (simp add: timer_load_def stopped_def advance_0 Let_def)

lemma set_bit_tifr1_timer:
  "regs (set_bit_reg (timer sched) TIFR1_ADDR 0 s5) TIFR1_ADDR = 0"
proof -
  let ?l = "snd (timer_load sched s5 TIFR1_ADDR)"
  let ?w = "fst (timer_load sched s5 TIFR1_ADDR)"
  let ?x = "regs (advance (sched (steps ?l)) ?l) TIFR1_ADDR"
  have w: "?w = regs ?l TIFR1_ADDR"
    by (simp add: fst_timer_load regs_timer_load)
  have "?x = ?w \<or> ?x = ?w OR 1"
    by (simp add: tifr1_advance w)
  then have "?x AND NOT (?w OR 1) = 0"
    using and_not_or1_self[of ?w] or1_and_not_or1[of ?w] by auto
  then show ?thesis
    by (simp add: set_bit_reg_0 load_timer store_timer regs_timer_store_same)
qed

lemma or1_eq_1_iff: "((w :: uint8_t) OR 1 = 1) = (\<forall>j. j \<noteq> 0 \<longrightarrow> \<not> bit w j)"
proof
  assume e: "w OR 1 = 1"
  show "\<forall>j. j \<noteq> 0 \<longrightarrow> \<not> bit w j"
  proof (intro allI impI)
    fix j :: nat assume j: "j \<noteq> 0"
    have "bit (w OR 1) j = bit (1 :: uint8_t) j" by (simp only: e)
    with j show "\<not> bit w j" by (simp add: bit_or_iff bit_1_iff)
  qed
next
  assume a: "\<forall>j. j \<noteq> 0 \<longrightarrow> \<not> bit w j"
  show "w OR 1 = 1"
  proof (rule bit_word_eqI)
    fix n :: nat
    from a show "bit (w OR 1) n = bit (1 :: uint8_t) n"
      by (cases "n = 0") (simp_all add: bit_or_iff bit_1_iff)
  qed
qed

lemma timer_store_stopped_rec:
  "a \<noteq> TIFR1_ADDR \<Longrightarrow>
   timer_store stopped \<lparr>regs = r, steps = k, elapsed = e\<rparr> a v =
     \<lparr>regs = r(a := v), steps = Suc k, elapsed = e\<rparr>"
  by (simp add: timer_store_stopped)

lemma timer_store_stopped_tifr1:
  "timer_store stopped \<lparr>regs = r, steps = k, elapsed = e\<rparr> TIFR1_ADDR v =
     \<lparr>regs = r(TIFR1_ADDR := r TIFR1_ADDR AND NOT v), steps = Suc k, elapsed = e\<rparr>"
  by (simp add: timer_store_stopped)

lemma timer_load_stopped_rec:
  "timer_load stopped \<lparr>regs = r, steps = k, elapsed = e\<rparr> a =
     (r a, \<lparr>regs = r, steps = Suc k, elapsed = e\<rparr>)"
  by (simp add: timer_load_stopped)

lemma delay_two_flags:
  "map_option (last \<circ> snd) (delay_1000ms (logged (timer stopped)) (two_flags, []))
     = Some (Wr TIFR1_ADDR 3)"
  "map_option (peek TIFR1_ADDR \<circ> fst) (delay_1000ms (logged (timer stopped)) (two_flags, []))
     = Some 0"
proof -
  let ?r4 = "(\<lambda>a. 0)(TIFR1_ADDR := 3, TCCR1A_ADDR := 0x00, TCCR1B_ADDR := 0x04,
               TCNT1L_ADDR := 0xDB, TCNT1H_ADDR := 0x0B)"
  let ?s4 = "\<lparr>regs = ?r4, steps = 4, elapsed = 0\<rparr>"
  let ?s5 = "\<lparr>regs = ?r4, steps = 5, elapsed = 0\<rparr>"
  have a: "delay_armed (timer stopped) two_flags = ?s4"
    by (simp add: delay_armed_def write_reg_def store_timer timer_store_stopped_rec two_flags_def
        del: fun_upd_apply)
  have f: "?r4 TIFR1_ADDR = 3" by simp
  have p: "poll (logged (timer stopped)) (?s4, t) = Some (?s5, t @ [Rd TIFR1_ADDR 3])" for t
    by (subst poll_unfold)
      (simp add: load_logged load_timer timer_load_stopped_rec f del: fun_upd_apply)
  have c: "set_bit_reg (logged (timer stopped)) TIFR1_ADDR 0 (?s5, t) =
      (\<lparr>regs = ?r4(TIFR1_ADDR := 0), steps = 7, elapsed = 0\<rparr>,
       t @ [Rd TIFR1_ADDR 3, Wr TIFR1_ADDR 3])" for t
    unfolding set_bit_reg_0_logged
    by (simp add: set_bit_reg_0 load_timer store_timer
        timer_load_stopped_rec timer_store_stopped_tifr1 f del: fun_upd_apply)
  have d: "delay_1000ms (logged (timer stopped)) (two_flags, []) =
      Some (\<lparr>regs = ?r4(TIFR1_ADDR := 0), steps = 7, elapsed = 0\<rparr>,
       [Wr TCCR1A_ADDR 0x00, Wr TCCR1B_ADDR 0x04, Wr TCNT1L_ADDR 0xDB, Wr TCNT1H_ADDR 0x0B,
        Rd TIFR1_ADDR 3, Rd TIFR1_ADDR 3, Wr TIFR1_ADDR 3])"
    by (simp add: delay_unfold delay_armed_logged a p c del: fun_upd_apply)
  show "map_option (last \<circ> snd) (delay_1000ms (logged (timer stopped)) (two_flags, []))
     = Some (Wr TIFR1_ADDR 3)"
    by (simp add: d)
  show "map_option (peek TIFR1_ADDR \<circ> fst) (delay_1000ms (logged (timer stopped)) (two_flags, []))
     = Some 0"
    by (simp add: d peek_def)
qed

lemma poll_blocked:
  assumes inv: "\<And>z. I z \<Longrightarrow> \<not> bit (fst (load B z TIFR1_ADDR)) 0 \<and> I (snd (load B z TIFR1_ADDR))"
    and s: "I s"
  shows "poll B s = None"
proof (rule ccontr)
  assume "poll B s \<noteq> None"
  then obtain s' where p: "poll B s = Some s'" by blast
  let ?P = "\<lambda>(C :: 'a bus) s (s' :: 'a). C = B \<longrightarrow> \<not> I s"
  have "?P B s s'"
  proof (rule poll.raw_induct[where P = ?P, OF _ p], goal_cases)
    case (1 pl C s s')
    show ?case
    proof (intro impI notI)
      assume C: "C = B" and i: "I s"
      from inv[OF i] have nb: "\<not> bit (fst (load B s TIFR1_ADDR)) 0"
        and i1: "I (snd (load B s TIFR1_ADDR))" by blast+
      from 1(2) nb have "pl C (snd (load B s TIFR1_ADDR)) = Some s'"
        by (simp add: C read_reg_def flag_test split: prod.splits)
      from 1(1)[OF this] C i1 show False by blast
    qed
  qed
  with s show False by blast
qed

lemma poll_timer_stopped:
  assumes z: "\<forall>k. sched k = 0" and f: "\<not> tov1 s"
  shows "poll (timer sched) s = None"
proof (rule poll_blocked[where I = "\<lambda>z. \<not> tov1 z"])
  fix z assume nz: "\<not> tov1 z"
  have "advance (sched (steps z)) z = z" using z by (simp add: advance_0)
  then show "\<not> bit (fst (load (timer sched) z TIFR1_ADDR)) 0
           \<and> \<not> tov1 (snd (load (timer sched) z TIFR1_ADDR))"
    using nz by (simp add: load_timer timer_load_def tov1_def)
next
  show "\<not> tov1 s" by (rule f)
qed

lemma delay_timer_stopped:
  assumes z: "\<forall>k. sched k = 0" and f: "\<not> tov1 s"
  shows "delay_1000ms (timer sched) s = None"
proof -
  have st: "\<not> tov1 (timer_store sched x a v)" if "\<not> tov1 x" "a \<noteq> TIFR1_ADDR" for x a v
    using that z by (simp add: tov1_timer_store advance_0)
  have "\<not> tov1 (delay_armed (timer sched) s)"
    unfolding delay_armed_def write_reg_def store_timer
    by (intro st f) simp_all
  from poll_timer_stopped[OF z this] show ?thesis
    by (simp add: delay_unfold)
qed





lemma x20: "(0x20 :: uint8_t) = push_bit 5 1"
  by simp




lemma loop_body_logged_ex:
  assumes "loop_body B s = Some s'"
  shows "\<exists>t'. loop_body (logged B) (s, t) = Some (s', t')"
proof -
  from assms obtain s2 where d1: "delay_1000ms B (set_bit_reg B PORTB_ADDR 5 s) = Some s2"
    and d2: "delay_1000ms B (clear_bit B PORTB_ADDR 5 s2) = Some s'"
    by (auto simp add: loop_body_def split: option.splits)
  from delay_logged_ex[OF d1] obtain t2 where
    "delay_1000ms (logged B) (set_bit_reg (logged B) PORTB_ADDR 5 (s, t)) = Some (s2, t2)"
    unfolding set_bit_reg_5_logged by blast
  moreover from delay_logged_ex[OF d2] obtain t' where
    "delay_1000ms (logged B) (clear_bit (logged B) PORTB_ADDR 5 (s2, t2)) = Some (s', t')"
    unfolding clear_bit_5_logged by blast
  ultimately show ?thesis
    by (auto simp add: loop_body_def)
qed


lemma loop_body_timer_returns:
  assumes "ticks_forever sched"
  shows "\<exists>s'. loop_body (timer sched) s = Some s'"
proof -
  from delay_timer_returns[OF assms] obtain s2 where
    "delay_1000ms (timer sched) (set_bit_reg (timer sched) PORTB_ADDR 5 s) = Some s2" by blast
  moreover from delay_timer_returns[OF assms] obtain s4 where
    "delay_1000ms (timer sched) (clear_bit (timer sched) PORTB_ADDR 5 s2) = Some s4" by blast
  ultimately show ?thesis by (simp add: loop_body_def)
qed


text \<open>A read-modify-write of a register that the timer does not touch.\<close>

lemma rmw_timer_regs:
  assumes a: "a \<noteq> TCNT1L_ADDR" "a \<noteq> TCNT1H_ADDR" "a \<noteq> TIFR1_ADDR"
  shows "fst (timer_load sched s a) = regs s a"
    and "regs (timer_store sched (snd (timer_load sched s a)) a v) a = v"
    and "b \<noteq> a \<Longrightarrow> b \<noteq> TCNT1L_ADDR \<Longrightarrow> b \<noteq> TCNT1H_ADDR \<Longrightarrow> b \<noteq> TIFR1_ADDR \<Longrightarrow>
         regs (timer_store sched (snd (timer_load sched s a)) a v) b = regs s b"
  using a
  by (simp_all add: fst_timer_load regs_timer_load regs_timer_store_same regs_timer_store_other
      regs_advance_other)

lemma rmw_timer_exact:
  assumes tpa: "tick_per_access sched" and nf: "\<not> tov1 s" and c: "tcnt1 (regs s) \<le> 65533"
    and a: "a \<noteq> TCNT1L_ADDR" "a \<noteq> TCNT1H_ADDR" "a \<noteq> TIFR1_ADDR"
  shows "\<not> tov1 (timer_store sched (snd (timer_load sched s a)) a v)"
    and "tcnt1 (regs (timer_store sched (snd (timer_load sched s a)) a v)) \<le> tcnt1 (regs s) + 2"
    and "elapsed s \<le> elapsed (timer_store sched (snd (timer_load sched s a)) a v)"
    and "elapsed (timer_store sched (snd (timer_load sched s a)) a v) \<le> elapsed s + 2"
proof -
  let ?n0 = "sched (steps s)"
  let ?n1 = "sched (Suc (steps s))"
  let ?l = "snd (timer_load sched s a)"
  let ?s' = "timer_store sched ?l a v"
  have n: "?n0 \<le> 1" "?n1 \<le> 1"
    using tpa by (simp_all add: tick_per_access_def)
  have stl: "steps ?l = Suc (steps s)" by (simp add: steps_timer_load)
  have cl: "tcnt1 (regs ?l) = tcnt1 (regs s) + ?n0"
    using c n(1) by (simp add: regs_timer_load tcnt1_advance)
  have fl: "\<not> tov1 ?l"
    using c n(1) nf by (simp add: tov1_def regs_timer_load tifr1_advance)
  have c': "tcnt1 (regs ?s') = tcnt1 (regs s) + ?n0 + ?n1"
    using c n a by (simp add: tcnt1_timer_store_other[of _ _ ?l] cl stl)
  show "\<not> tov1 ?s'"
    using c n fl a by (simp add: tov1_timer_store[of _ _ ?l] tov1_advance cl stl)
  from c' n show "tcnt1 (regs ?s') \<le> tcnt1 (regs s) + 2" by linarith
  have e: "elapsed ?s' = elapsed s + ?n0 + ?n1"
    by (simp add: elapsed_timer_store[of _ ?l] elapsed_timer_load stl)
  from e show "elapsed s \<le> elapsed ?s'" by linarith
  from e n show "elapsed ?s' \<le> elapsed s + 2" by linarith
qed

lemma set_bit_reg_5_timer:
  "set_bit_reg (timer sched) a 5 s =
     timer_store sched (snd (timer_load sched s a)) a (fst (timer_load sched s a) OR 0x20)"
  by (simp add: set_bit_reg_5 load_timer store_timer)

lemma clear_bit_5_timer:
  "clear_bit (timer sched) a 5 s =
     timer_store sched (snd (timer_load sched s a)) a (fst (timer_load sched s a) AND NOT 0x20)"
  by (simp only: clear_bit_5 load_timer store_timer)

lemma delay_timer_config:
  assumes "delay_1000ms (timer sched) s = Some s'"
  shows "regs s' TCCR1A_ADDR = 0x00" and "regs s' TCCR1B_ADDR = 0x04"
  using delay_timer_frame[OF assms, of TCCR1A_ADDR] delay_timer_frame[OF assms, of TCCR1B_ADDR]
  by simp_all

lemma pin_ready_facts: "\<not> tov1 pin_ready" "tcnt1 (regs pin_ready) = 0"
  by (simp_all add: tov1_def pin_ready_def tcnt1_def)

lemma bit_0x20: "bit (0x20 :: uint8_t) n = (n = 5)"
proof -
  have "bit (push_bit 5 (1 :: uint8_t)) n = (n = 5)"
    by (auto simp add: bit_push_bit_iff bit_1_iff simp del: push_bit_of_1)
  then show ?thesis by (simp only: x20)
qed

lemma or_and_not_0x20: "\<not> bit (p :: uint8_t) 5 \<Longrightarrow> (p OR 0x20) AND NOT 0x20 = p"
proof (rule bit_word_eqI)
  fix n :: nat
  assume p: "\<not> bit p 5" and n: "n < LENGTH(8)"
  have "bit ((p OR 0x20) AND NOT 0x20) n = ((bit p n \<or> n = 5) \<and> n \<noteq> 5)"
    using n by (simp only: bit_and_iff bit_or_iff bit_not_iff bit_0x20) simp
  also have "\<dots> = bit p n" using p by auto
  finally show "bit ((p OR 0x20) AND NOT 0x20) n = bit p n" .
qed


lemma slow_clockD:
  assumes "slow_clock sched"
  shows "sched k + sched (k + 1) + sched (k + 2) + sched (k + 3) \<le> 1"
    and "sched k + sched (k + 1) + sched (k + 2) \<le> 1"
    and "sched k + sched (k + 1) \<le> 1"
    and "sched k \<le> 1"
proof -
  from assms show a: "sched k + sched (k + 1) + sched (k + 2) + sched (k + 3) \<le> 1"
    unfolding slow_clock_def by blast
  from a show "sched k + sched (k + 1) + sched (k + 2) \<le> 1" by linarith
  from a show "sched k + sched (k + 1) \<le> 1" by linarith
  from a show "sched k \<le> 1" by linarith
qed

lemma slow_clock_tick_per_access: "slow_clock sched \<Longrightarrow> tick_per_access sched"
  unfolding tick_per_access_def using slow_clockD(4) by blast

lemma slow_clock_quarter: "slow_clock quarter"
proof -
  have "quarter k + quarter (k + 1) + quarter (k + 2) + quarter (k + 3) \<le> 1" for k
  proof -
    have "k mod 4 = 0 \<or> k mod 4 = 1 \<or> k mod 4 = 2 \<or> k mod 4 = 3" by linarith
    then show ?thesis
    proof (elim disjE)
      assume "k mod 4 = 0"
      then have "(k + 1) mod 4 = 1" "(k + 2) mod 4 = 2" "(k + 3) mod 4 = 3" by presburger+
      with \<open>k mod 4 = 0\<close> show ?thesis unfolding quarter_def by simp
    next
      assume "k mod 4 = 1"
      then have "(k + 1) mod 4 = 2" "(k + 2) mod 4 = 3" "(k + 3) mod 4 = 0" by presburger+
      with \<open>k mod 4 = 1\<close> show ?thesis unfolding quarter_def by simp
    next
      assume "k mod 4 = 2"
      then have "(k + 1) mod 4 = 3" "(k + 2) mod 4 = 0" "(k + 3) mod 4 = 1" by presburger+
      with \<open>k mod 4 = 2\<close> show ?thesis unfolding quarter_def by simp
    next
      assume "k mod 4 = 3"
      then have "(k + 1) mod 4 = 0" "(k + 2) mod 4 = 1" "(k + 3) mod 4 = 2" by presburger+
      with \<open>k mod 4 = 3\<close> show ?thesis unfolding quarter_def by simp
    qed
  qed
  then show ?thesis unfolding slow_clock_def by blast
qed

lemma ticks_forever_quarter: "ticks_forever quarter"
  unfolding ticks_forever_def
proof
  fix k :: nat
  have "k \<le> 4 * k" "0 < quarter (4 * k)" by (simp_all add: quarter_def)
  then show "\<exists>j\<ge>k. 0 < quarter j" by blast
qed

lemma delay_via_flag_seen:
  "delay_1000ms B s = map_option (set_bit_reg B TIFR1_ADDR 0) (delay_flag_seen B s)"
  by (simp add: delay_unfold delay_flag_seen_def split: option.splits)

lemma steps_delay_armed: "steps (delay_armed (timer sched) s) = steps s + 4"
  by (simp add: delay_armed_def write_reg_def store_timer steps_timer_store)

lemma elapsed_delay_armed:
  "elapsed (delay_armed (timer sched) s) =
     elapsed s + sched (steps s) + sched (steps s + 1) + sched (steps s + 2) + sched (steps s + 3)"
proof -
  let ?s1 = "timer_store sched s TCCR1A_ADDR 0x00"
  let ?s2 = "timer_store sched ?s1 TCCR1B_ADDR 0x04"
  let ?s3 = "timer_store sched ?s2 TCNT1L_ADDR 0xDB"
  let ?s4 = "timer_store sched ?s3 TCNT1H_ADDR 0x0B"
  have st: "steps ?s1 = steps s + 1" "steps ?s2 = steps s + 2" "steps ?s3 = steps s + 3"
    by (simp_all add: steps_timer_store)
  have "elapsed ?s4 = elapsed s + sched (steps s) + sched (steps s + 1) + sched (steps s + 2)
      + sched (steps s + 3)"
    by (simp add: elapsed_timer_store[of _ ?s3] elapsed_timer_store[of _ ?s2]
        elapsed_timer_store[of _ ?s1] elapsed_timer_store[of _ s] st)
  then show ?thesis
    by (simp add: delay_armed_def write_reg_def store_timer)
qed

lemma tov1_delay_armed_stale:
  assumes "tov1 s"
  shows "tov1 (delay_armed (timer sched) s)"
proof -
  have st: "tov1 (timer_store sched x a v)" if "tov1 x" "a \<noteq> TIFR1_ADDR" for x a v
    using that by (simp add: tov1_timer_store tov1_advance)
  show ?thesis
    unfolding delay_armed_def write_reg_def store_timer
    by (intro st assms) simp_all
qed

lemma tcnt1_delay_armed:
  assumes tpa: "tick_per_access sched" and c: "tcnt1 (regs s) \<le> 65532"
  shows "tcnt1 (regs (delay_armed (timer sched) s)) = 3035 + sched (steps s + 3)"
proof -
  let ?s1 = "timer_store sched s TCCR1A_ADDR 0x00"
  let ?s2 = "timer_store sched ?s1 TCCR1B_ADDR 0x04"
  let ?s3 = "timer_store sched ?s2 TCNT1L_ADDR 0xDB"
  let ?s4 = "timer_store sched ?s3 TCNT1H_ADDR 0x0B"
  let ?n3 = "sched (steps s + 3)"
  have n: "sched (steps s) \<le> 1" "sched (steps s + 1) \<le> 1" "?n3 \<le> 1"
    using tpa by (simp_all add: tick_per_access_def)
  have s4: "delay_armed (timer sched) s = ?s4"
    by (simp add: delay_armed_def write_reg_def store_timer)
  have st3: "steps ?s3 = steps s + 3" by (simp add: steps_timer_store)
  obtain h where c3: "tcnt1 (regs ?s3) = 256 * h + 219" and h: "h < 256"
  proof
    show "tcnt1 (regs ?s3) = 256 * ((tcnt1 (regs ?s2) + sched (steps ?s2)) div 256 mod 256) + 219"
      by (simp add: tcnt1_timer_store_low[of _ ?s2])
    show "(tcnt1 (regs ?s2) + sched (steps ?s2)) div 256 mod 256 < 256"
      by simp
  qed
  have m: "(256 * h + 219 + ?n3) mod 256 = 219 + ?n3"
  proof -
    have "(256 * h + (219 + ?n3)) mod 256 = (219 + ?n3) mod 256"
      by (rule mod_mult_self4)
    also have "\<dots> = 219 + ?n3"
      using n(3) by simp
    finally show ?thesis by (simp add: add.assoc)
  qed
  have "tcnt1 (regs ?s4) = 3035 + ?n3"
    using m by (simp add: tcnt1_timer_store_high[of _ ?s3] c3 st3)
  then show ?thesis unfolding s4 .
qed

lemma flag_seen_fresh:
  assumes tpa: "tick_per_access sched" and tf: "ticks_forever sched"
    and nf: "\<not> tov1 s" and c: "tcnt1 (regs s) \<le> 65532"
  obtains p where "delay_flag_seen (timer sched) s = Some p" "tov1 p" "tcnt1 (regs p) = 0"
    "elapsed p = elapsed s + sched (steps s) + sched (steps s + 1) + sched (steps s + 2) + 62501"
    "steps s + 4 < steps p"
    "\<forall>a. a \<noteq> TCCR1A_ADDR \<longrightarrow> a \<noteq> TCCR1B_ADDR \<longrightarrow> a \<noteq> TCNT1L_ADDR \<longrightarrow> a \<noteq> TCNT1H_ADDR
        \<longrightarrow> a \<noteq> TIFR1_ADDR \<longrightarrow> regs p a = regs s a"
proof -
  let ?s4 = "delay_armed (timer sched) s"
  from poll_timer_terminates[OF tf] obtain p where p: "poll (timer sched) ?s4 = Some p"
    by blast
  note a = delay_armed_timer_exact[OF tpa nf c]
  have n3: "sched (steps s + 3) \<le> 1"
    using tpa by (simp add: tick_per_access_def)
  note q = poll_timer_sound[OF p]
  from q a(1) tpa
  have e: "elapsed p = elapsed ?s4 + (65536 - tcnt1 (regs ?s4))" and c5: "tcnt1 (regs p) = 0"
    by blast+
  from e have e': "elapsed p = elapsed s + sched (steps s) + sched (steps s + 1)
      + sched (steps s + 2) + 62501"
    unfolding a(2) a(3) using n3 by linarith
  from q have t: "tov1 p" and st: "steps ?s4 < steps p" by blast+
  have fr: "\<forall>a. a \<noteq> TCCR1A_ADDR \<longrightarrow> a \<noteq> TCCR1B_ADDR \<longrightarrow> a \<noteq> TCNT1L_ADDR \<longrightarrow> a \<noteq> TCNT1H_ADDR
        \<longrightarrow> a \<noteq> TIFR1_ADDR \<longrightarrow> regs p a = regs s a"
  proof (intro allI impI)
    fix a assume x: "a \<noteq> TCCR1A_ADDR" "a \<noteq> TCCR1B_ADDR" "a \<noteq> TCNT1L_ADDR" "a \<noteq> TCNT1H_ADDR"
      "a \<noteq> TIFR1_ADDR"
    from q x have "regs p a = regs ?s4 a" by blast
    with x show "regs p a = regs s a" by (simp add: regs_delay_armed_timer)
  qed
  show ?thesis
    using that[OF _ t c5 e' _ fr] p st by (simp add: delay_flag_seen_def a(4))
qed

lemma flag_seen_stale:
  assumes "tov1 s"
  obtains p where "delay_flag_seen (timer sched) s = Some p" "tov1 p"
    "elapsed p = elapsed s + sched (steps s) + sched (steps s + 1) + sched (steps s + 2)
       + sched (steps s + 3) + sched (steps s + 4)"
    "steps p = steps s + 5"
    "tcnt1 (regs p) = (tcnt1 (regs (delay_armed (timer sched) s)) + sched (steps s + 4)) mod 65536"
proof -
  let ?s4 = "delay_armed (timer sched) s"
  let ?p = "(advance (sched (steps ?s4)) ?s4)\<lparr>steps := Suc (steps ?s4)\<rparr>"
  have t4: "tov1 ?s4" using assms by (rule tov1_delay_armed_stale)
  have p: "poll (timer sched) ?s4 = Some ?p" using t4 by (rule poll_timer_stale)
  have "tov1 ?p" using t4 by (simp add: tov1_def tifr1_advance tov1_advance) (simp add: bit_or_iff)
  moreover have "elapsed ?p = elapsed s + sched (steps s) + sched (steps s + 1) + sched (steps s + 2)
       + sched (steps s + 3) + sched (steps s + 4)"
    by (simp add: elapsed_advance elapsed_delay_armed steps_delay_armed)
  moreover have "steps ?p = steps s + 5" by (simp add: steps_delay_armed)
  moreover have "tcnt1 (regs ?p) = (tcnt1 (regs ?s4) + sched (steps s + 4)) mod 65536"
    by (simp add: tcnt1_advance steps_delay_armed)
  ultimately show ?thesis
    using that[of ?p] p by (simp add: delay_flag_seen_def)
qed

lemma flag_clear_steps:
  "steps (set_bit_reg (timer sched) TIFR1_ADDR 0 p) = steps p + 2"
  and flag_clear_elapsed:
  "elapsed (set_bit_reg (timer sched) TIFR1_ADDR 0 p) =
     elapsed p + sched (steps p) + sched (steps p + 1)"
  by (simp_all add: set_bit_reg_0 load_timer store_timer steps_timer_store steps_timer_load
      elapsed_timer_store elapsed_timer_load)

lemma flag_clear_tcnt1:
  assumes tpa: "tick_per_access sched" and c: "tcnt1 (regs p) \<le> 65533"
  shows "tcnt1 (regs (set_bit_reg (timer sched) TIFR1_ADDR 0 p)) =
           tcnt1 (regs p) + sched (steps p) + sched (steps p + 1)"
proof -
  let ?l = "snd (timer_load sched p TIFR1_ADDR)"
  have n: "sched (steps p) \<le> 1" "sched (Suc (steps p)) \<le> 1"
    using tpa by (simp_all add: tick_per_access_def)
  have stl: "steps ?l = Suc (steps p)" by (simp add: steps_timer_load)
  have cl: "tcnt1 (regs ?l) = tcnt1 (regs p) + sched (steps p)"
    using c n(1) by (simp add: regs_timer_load tcnt1_advance)
  show ?thesis
    using c n by (simp add: set_bit_reg_0 load_timer store_timer
        tcnt1_timer_store_other[of _ _ ?l] cl stl)
qed

lemma start_to_flag_fresh:
  assumes tpa: "tick_per_access sched" and tf: "ticks_forever sched"
    and nf: "\<not> tov1 s" and c: "tcnt1 (regs s) \<le> 65532"
  shows "start_to_flag sched s =
           Some (sched (steps s) + sched (steps s + 1) + sched (steps s + 2) + 62501)"
proof -
  from flag_seen_fresh[OF assms] obtain p where
    "delay_flag_seen (timer sched) s = Some p"
    "elapsed p = elapsed s + sched (steps s) + sched (steps s + 1) + sched (steps s + 2) + 62501"
    by blast
  then show ?thesis by (simp add: start_to_flag_def)
qed

lemma start_to_flag_stale:
  assumes "tov1 s"
  shows "start_to_flag sched s =
           Some (sched (steps s) + sched (steps s + 1) + sched (steps s + 2)
                 + sched (steps s + 3) + sched (steps s + 4))"
proof -
  from flag_seen_stale[OF assms, of sched] obtain p where
    "delay_flag_seen (timer sched) s = Some p"
    "elapsed p = elapsed s + sched (steps s) + sched (steps s + 1) + sched (steps s + 2)
       + sched (steps s + 3) + sched (steps s + 4)"
    by blast
  then show ?thesis by (simp add: start_to_flag_def)
qed

text \<open>A call that finds the flag pending: where it leaves the timer.\<close>

lemma delay_stale:
  assumes tpa: "tick_per_access sched" and t: "tov1 s" and c: "tcnt1 (regs s) \<le> 65532"
  obtains s1 where "delay_1000ms (timer sched) s = Some s1" "\<not> tov1 s1"
    "steps s1 = steps s + 7" "tcnt1 (regs s1) \<le> 3039"
proof -
  from flag_seen_stale[OF t, of sched] obtain p where p:
    "delay_flag_seen (timer sched) s = Some p" "steps p = steps s + 5"
    "tcnt1 (regs p) = (tcnt1 (regs (delay_armed (timer sched) s)) + sched (steps s + 4)) mod 65536"
    by blast
  let ?s1 = "set_bit_reg (timer sched) TIFR1_ADDR 0 p"
  have d: "delay_1000ms (timer sched) s = Some ?s1"
    by (simp add: delay_via_flag_seen p(1))
  have n: "sched (steps s + 3) \<le> 1" "sched (steps s + 4) \<le> 1" "sched (steps p) \<le> 1"
    "sched (steps p + 1) \<le> 1"
    using tpa by (simp_all add: tick_per_access_def)
  have cp: "tcnt1 (regs p) = 3035 + sched (steps s + 3) + sched (steps s + 4)"
    unfolding p(3) tcnt1_delay_armed[OF tpa c] using n by simp
  with n have "tcnt1 (regs p) \<le> 65533" by linarith
  from flag_clear_tcnt1[OF tpa this] cp n have "tcnt1 (regs ?s1) \<le> 3039" by linarith
  moreover have "steps ?s1 = steps s + 7" by (simp add: flag_clear_steps p(2))
  moreover have "\<not> tov1 ?s1" using d by (rule delay_timer_flag_clear)
  ultimately show ?thesis using that d by blast
qed

lemma delay_trace_prefix:
  assumes "delay_1000ms (logged B) (s, []) = Some (s', t')"
  shows "take 4 t' = [Wr TCCR1A_ADDR 0x00, Wr TCCR1B_ADDR 0x04, Wr TCNT1L_ADDR 0xDB, Wr TCNT1H_ADDR 0x0B]"
    and "store_addrs t' = [TCCR1A_ADDR, TCCR1B_ADDR, TCNT1L_ADDR, TCNT1H_ADDR, TIFR1_ADDR]"
proof -
  from delay_logged(2)[OF assms] obtain vs v w where
    t': "t' = [Wr TCCR1A_ADDR 0x00, Wr TCCR1B_ADDR 0x04, Wr TCNT1L_ADDR 0xDB, Wr TCNT1H_ADDR 0x0B]
              @ (map (Rd TIFR1_ADDR) vs
              @ [Rd TIFR1_ADDR v, Rd TIFR1_ADDR w, Wr TIFR1_ADDR (w OR 1)])"
    by auto
  show "take 4 t' = [Wr TCCR1A_ADDR 0x00, Wr TCCR1B_ADDR 0x04, Wr TCNT1L_ADDR 0xDB, Wr TCNT1H_ADDR 0x0B]"
    unfolding t' by simp
  have r: "store_addrs (map (Rd a) xs @ u) = store_addrs u" for a xs u
    by (induction xs) simp_all
  show "store_addrs t' = [TCCR1A_ADDR, TCCR1B_ADDR, TCNT1L_ADDR, TCNT1H_ADDR, TIFR1_ADDR]"
    unfolding t' by (simp add: r)
qed

lemma delay_timer_slow:
  assumes sl: "slow_clock sched" and tf: "ticks_forever sched"
    and nf: "\<not> tov1 s" and c: "tcnt1 (regs s) \<le> 65532"
  obtains s1 t1 where
    "delay_1000ms (timer sched) s = Some s1"
    "delay_1000ms (logged (timer sched)) (s, []) = Some (s1, t1)"
    "start_to_flag sched s = Some 62501 \<or> start_to_flag sched s = Some 62502"
    "\<not> tov1 s1" "tcnt1 (regs s1) \<le> 2"
    "elapsed s + 62501 \<le> elapsed s1" "elapsed s1 \<le> elapsed s + 62503"
proof -
  note tpa = slow_clock_tick_per_access[OF sl]
  from flag_seen_fresh[OF tpa tf nf c] obtain p where p:
    "delay_flag_seen (timer sched) s = Some p" "tcnt1 (regs p) = 0"
    "elapsed p = elapsed s + sched (steps s) + sched (steps s + 1) + sched (steps s + 2) + 62501"
    by blast
  let ?s1 = "set_bit_reg (timer sched) TIFR1_ADDR 0 p"
  have d: "delay_1000ms (timer sched) s = Some ?s1"
    by (simp add: delay_via_flag_seen p(1))
  from delay_logged_ex[OF d] obtain t1 where
    l: "delay_1000ms (logged (timer sched)) (s, []) = Some (?s1, t1)" by blast
  note n = slow_clockD(2)[OF sl, of "steps s"] slow_clockD(3)[OF sl, of "steps p"]
  have sf: "start_to_flag sched s = Some 62501 \<or> start_to_flag sched s = Some 62502"
    unfolding start_to_flag_fresh[OF tpa tf nf c] using n(1) by auto
  have e1: "elapsed ?s1 = elapsed p + sched (steps p) + sched (steps p + 1)"
    by (rule flag_clear_elapsed)
  have "elapsed s + 62501 \<le> elapsed ?s1" unfolding e1 p(3) by linarith
  moreover have "elapsed ?s1 \<le> elapsed s + 62503" unfolding e1 p(3) using n by linarith
  moreover have "\<not> tov1 ?s1" using d by (rule delay_timer_flag_clear)
  moreover have "tcnt1 (regs ?s1) \<le> 2" by (rule delay_timer_exact(3)[OF tpa nf c d])
  ultimately show ?thesis using that[OF d l sf] by blast
qed

lemma flag_pending_facts:
  "tov1 flag_pending" "tcnt1 (regs flag_pending) = 0" "steps flag_pending = 0"
  by (simp_all add: tov1_def flag_pending_def tcnt1_def)

lemma store_addrs_append: "store_addrs (t @ u) = store_addrs t @ store_addrs u"
  by (induction t rule: store_addrs.induct) simp_all

lemma store_addrs_reads: "store_addrs (map (Rd a) xs) = []"
  by (induction xs) simp_all

lemma delay_logged_stores:
  assumes "delay_1000ms (logged B) (s, t) = Some (s', t')"
  obtains u where "t' = t @ u"
    "store_addrs u = [TCCR1A_ADDR, TCCR1B_ADDR, TCNT1L_ADDR, TCNT1H_ADDR, TIFR1_ADDR]"
    "writes_to PORTB_ADDR u = []" "writes_to DDRB_ADDR u = []"
proof -
  from delay_logged(2)[OF assms] obtain vs v w where
    t': "t' = t @ ([Wr TCCR1A_ADDR 0x00, Wr TCCR1B_ADDR 0x04, Wr TCNT1L_ADDR 0xDB, Wr TCNT1H_ADDR 0x0B]
              @ map (Rd TIFR1_ADDR) vs
              @ [Rd TIFR1_ADDR v, Rd TIFR1_ADDR w, Wr TIFR1_ADDR (w OR 1)])"
    by auto
  show ?thesis
    by (rule that[OF t'])
      (simp_all add: store_addrs_append store_addrs_reads writes_to_append writes_to_reads)
qed

lemma loop_body_logged_stores:
  assumes "loop_body (logged B) (s, []) = Some (s', t')"
  obtains s2 where
    "delay_1000ms B (set_bit_reg B PORTB_ADDR 5 s) = Some s2"
    "delay_1000ms B (clear_bit B PORTB_ADDR 5 s2) = Some s'"
    "store_addrs t' =
       [PORTB_ADDR, TCCR1A_ADDR, TCCR1B_ADDR, TCNT1L_ADDR, TCNT1H_ADDR, TIFR1_ADDR,
        PORTB_ADDR, TCCR1A_ADDR, TCCR1B_ADDR, TCNT1L_ADDR, TCNT1H_ADDR, TIFR1_ADDR]"
    "writes_to PORTB_ADDR t' =
       [fst (load B s PORTB_ADDR) OR 0x20, fst (load B s2 PORTB_ADDR) AND NOT 0x20]"
    "writes_to DDRB_ADDR t' = []"
proof -
  let ?p = "fst (load B s PORTB_ADDR)"
  let ?t1 = "[Rd PORTB_ADDR ?p, Wr PORTB_ADDR (?p OR 0x20)]"
  from assms obtain s2 t2 where
    d1: "delay_1000ms (logged B) (set_bit_reg B PORTB_ADDR 5 s, ?t1) = Some (s2, t2)"
    and d2': "delay_1000ms (logged B) (clear_bit (logged B) PORTB_ADDR 5 (s2, t2)) = Some (s', t')"
    by (auto simp add: loop_body_def set_bit_reg_5_logged split: option.splits)
  let ?q = "fst (load B s2 PORTB_ADDR)"
  let ?t3 = "t2 @ [Rd PORTB_ADDR ?q, Wr PORTB_ADDR (?q AND NOT 0x20)]"
  from d2' have d2: "delay_1000ms (logged B) (clear_bit B PORTB_ADDR 5 s2, ?t3) = Some (s', t')"
    by (simp only: clear_bit_5_logged)
  from delay_logged_stores[OF d1] obtain u1 where u1: "t2 = ?t1 @ u1"
    "store_addrs u1 = [TCCR1A_ADDR, TCCR1B_ADDR, TCNT1L_ADDR, TCNT1H_ADDR, TIFR1_ADDR]"
    "writes_to PORTB_ADDR u1 = []" "writes_to DDRB_ADDR u1 = []"
    by blast
  from delay_logged_stores[OF d2] obtain u2 where u2: "t' = ?t3 @ u2"
    "store_addrs u2 = [TCCR1A_ADDR, TCCR1B_ADDR, TCNT1L_ADDR, TCNT1H_ADDR, TIFR1_ADDR]"
    "writes_to PORTB_ADDR u2 = []" "writes_to DDRB_ADDR u2 = []"
    by blast
  have t': "t' = ?t1 @ u1 @ [Rd PORTB_ADDR ?q, Wr PORTB_ADDR (?q AND NOT 0x20)] @ u2"
    unfolding u2(1) u1(1) by simp
  show ?thesis
  proof (rule that[OF delay_logged(1)[OF d1] delay_logged(1)[OF d2]])
    show "store_addrs t' =
       [PORTB_ADDR, TCCR1A_ADDR, TCCR1B_ADDR, TCNT1L_ADDR, TCNT1H_ADDR, TIFR1_ADDR,
        PORTB_ADDR, TCCR1A_ADDR, TCCR1B_ADDR, TCNT1L_ADDR, TCNT1H_ADDR, TIFR1_ADDR]"
      unfolding t' by (simp add: store_addrs_append u1 u2)
    show "writes_to PORTB_ADDR t' = [?p OR 0x20, ?q AND NOT 0x20]"
      unfolding t' by (simp add: writes_to_append u1 u2 del: bit.compl_eq_compl_iff)
    show "writes_to DDRB_ADDR t' = []"
      unfolding t' by (simp add: writes_to_append u1 u2)
  qed
qed

text \<open>A read-modify-write of a register that the timer does not touch: steps and time.\<close>

lemma rmw_timer_steps:
  "steps (timer_store sched (snd (timer_load sched s a)) a v) = steps s + 2"
  and rmw_timer_elapsed:
  "elapsed (timer_store sched (snd (timer_load sched s a)) a v) =
     elapsed s + sched (steps s) + sched (steps s + 1)"
  by (simp_all add: steps_timer_store steps_timer_load elapsed_timer_store elapsed_timer_load)

text \<open>A call that waits: all that is used of it below.\<close>

lemma delay_timer_waits:
  assumes tpa: "tick_per_access sched" and tf: "ticks_forever sched"
    and nf: "\<not> tov1 s" and c: "tcnt1 (regs s) \<le> 65532"
  obtains p :: mcu and s1 where
    "delay_1000ms (timer sched) s = Some s1"
    "elapsed p = elapsed s + sched (steps s) + sched (steps s + 1) + sched (steps s + 2) + 62501"
    "elapsed s1 = elapsed p + sched (steps p) + sched (steps p + 1)"
    "steps s1 = steps p + 2"
    "\<not> tov1 s1" "tcnt1 (regs s1) \<le> 2"
proof -
  from flag_seen_fresh[OF tpa tf nf c] obtain p where p:
    "delay_flag_seen (timer sched) s = Some p"
    "elapsed p = elapsed s + sched (steps s) + sched (steps s + 1) + sched (steps s + 2) + 62501"
    by blast
  let ?s1 = "set_bit_reg (timer sched) TIFR1_ADDR 0 p"
  have d: "delay_1000ms (timer sched) s = Some ?s1"
    by (simp add: delay_via_flag_seen p(1))
  show ?thesis
    by (rule that[OF d p(2) flag_clear_elapsed[of sched p] flag_clear_steps[of sched p]
          delay_timer_flag_clear[OF d] delay_timer_exact(3)[OF tpa nf c d]])
qed

lemma toggle_pass:
  assumes sl: "slow_clock sched" and tf: "ticks_forever sched"
    and nf: "\<not> tov1 s" and c: "tcnt1 (regs s) \<le> 65530" and low: "\<not> bit (regs s PORTB_ADDR) 5"
  obtains s2 s4 where
    "delay_1000ms (timer sched) (set_bit_reg (timer sched) PORTB_ADDR 5 s) = Some s2"
    "delay_1000ms (timer sched) (clear_bit (timer sched) PORTB_ADDR 5 s2) = Some s4"
    "loop_body (timer sched) s = Some s4"
    "regs (set_bit_reg (timer sched) PORTB_ADDR 5 s) PORTB_ADDR = regs s PORTB_ADDR OR 0x20"
    "regs s2 PORTB_ADDR = regs s PORTB_ADDR OR 0x20"
    "regs (clear_bit (timer sched) PORTB_ADDR 5 s2) PORTB_ADDR = regs s PORTB_ADDR"
    "regs s4 PORTB_ADDR = regs s PORTB_ADDR"
    "elapsed (set_bit_reg (timer sched) PORTB_ADDR 5 s) + 62501
       \<le> elapsed (clear_bit (timer sched) PORTB_ADDR 5 s2)"
    "elapsed (clear_bit (timer sched) PORTB_ADDR 5 s2)
       \<le> elapsed (set_bit_reg (timer sched) PORTB_ADDR 5 s) + 62503"
    "elapsed (clear_bit (timer sched) PORTB_ADDR 5 s2) + 62501 \<le> elapsed s4"
    "elapsed s4 \<le> elapsed (clear_bit (timer sched) PORTB_ADDR 5 s2) + 62503"
    "\<not> tov1 s4" "tcnt1 (regs s4) \<le> 2"
proof -
  note tpa = slow_clock_tick_per_access[OF sl]
  let ?T = "timer sched"
  let ?s1 = "set_bit_reg ?T PORTB_ADDR 5 s"
  have c': "tcnt1 (regs s) \<le> 65533" using c by linarith
  have p1: "regs ?s1 PORTB_ADDR = regs s PORTB_ADDR OR 0x20"
    unfolding set_bit_reg_5_timer by (simp add: rmw_timer_regs)
  have f1: "\<not> tov1 ?s1"
    unfolding set_bit_reg_5_timer by (rule rmw_timer_exact(1)[OF tpa nf c']) simp_all
  have c1: "tcnt1 (regs ?s1) \<le> tcnt1 (regs s) + 2"
    unfolding set_bit_reg_5_timer by (rule rmw_timer_exact(2)[OF tpa nf c']) simp_all
  from c1 c have c1': "tcnt1 (regs ?s1) \<le> 65532" by linarith
  obtain q1 :: mcu and s2 where 2:
    "delay_1000ms ?T ?s1 = Some s2"
    "elapsed q1 = elapsed ?s1 + sched (steps ?s1) + sched (steps ?s1 + 1)
       + sched (steps ?s1 + 2) + 62501"
    "elapsed s2 = elapsed q1 + sched (steps q1) + sched (steps q1 + 1)"
    "steps s2 = steps q1 + 2"
    "\<not> tov1 s2" "tcnt1 (regs s2) \<le> 2"
    by (rule delay_timer_waits[OF tpa tf f1 c1']) (rule that)
  let ?s3 = "clear_bit ?T PORTB_ADDR 5 s2"
  have p2: "regs s2 PORTB_ADDR = regs ?s1 PORTB_ADDR"
    using delay_timer_frame[OF 2(1), of PORTB_ADDR] by simp
  have p3': "regs ?s3 PORTB_ADDR = regs s2 PORTB_ADDR AND NOT 0x20"
    unfolding clear_bit_5_timer by (simp only: rmw_timer_regs addr_neq not_False_eq_True)
  have p3: "regs ?s3 PORTB_ADDR = regs s PORTB_ADDR"
    unfolding p3' p2 p1 using low by (rule or_and_not_0x20)
  from 2(6) have c2': "tcnt1 (regs s2) \<le> 65533" by linarith
  have f3: "\<not> tov1 ?s3"
    unfolding clear_bit_5_timer by (rule rmw_timer_exact(1)[OF tpa 2(5) c2']) simp_all
  have c3: "tcnt1 (regs ?s3) \<le> tcnt1 (regs s2) + 2"
    unfolding clear_bit_5_timer by (rule rmw_timer_exact(2)[OF tpa 2(5) c2']) simp_all
  have e3: "elapsed ?s3 = elapsed s2 + sched (steps s2) + sched (steps s2 + 1)"
    unfolding clear_bit_5_timer by (rule rmw_timer_elapsed)
  from c3 2(6) have c3': "tcnt1 (regs ?s3) \<le> 65532" by linarith
  obtain q2 :: mcu and s4 where 4:
    "delay_1000ms ?T ?s3 = Some s4"
    "elapsed q2 = elapsed ?s3 + sched (steps ?s3) + sched (steps ?s3 + 1)
       + sched (steps ?s3 + 2) + 62501"
    "elapsed s4 = elapsed q2 + sched (steps q2) + sched (steps q2 + 1)"
    "steps s4 = steps q2 + 2"
    "\<not> tov1 s4" "tcnt1 (regs s4) \<le> 2"
    by (rule delay_timer_waits[OF tpa tf f3 c3']) (rule that)
  have l: "loop_body ?T s = Some s4"
    using 2(1) 4(1) by (simp add: loop_body_def)
  have p4: "regs s4 PORTB_ADDR = regs s PORTB_ADDR"
    using delay_timer_frame[OF 4(1), of PORTB_ADDR] p3 by simp
  note a = slow_clockD(2)[OF sl, of "steps ?s1"]
  have s23: "steps q1 + 2 + 1 = steps q1 + 3" by simp
  have b: "sched (steps q1) + sched (steps q1 + 1) + sched (steps s2) + sched (steps s2 + 1) \<le> 1"
    using slow_clockD(1)[OF sl, of "steps q1"] unfolding 2(4) s23 .
  note a' = slow_clockD(2)[OF sl, of "steps ?s3"]
  note b' = slow_clockD(3)[OF sl, of "steps q2"]
  have t1: "elapsed ?s1 + 62501 \<le> elapsed ?s3" unfolding e3 2(3) 2(2) by linarith
  have t2: "elapsed ?s3 \<le> elapsed ?s1 + 62503" unfolding e3 2(3) 2(2) using a b by linarith
  have t3: "elapsed ?s3 + 62501 \<le> elapsed s4" unfolding 4(3) 4(2) by linarith
  have t4: "elapsed s4 \<le> elapsed ?s3 + 62503" unfolding 4(3) 4(2) using a' b' by linarith
  show ?thesis
    by (rule that[OF 2(1) 4(1) l p1 _ p3 p4 t1 t2 t3 t4 4(5) 4(6)]) (simp add: p2 p1)
qed

lemma toggle_pass_frame:
  assumes d1: "delay_1000ms (timer sched) (set_bit_reg (timer sched) PORTB_ADDR 5 s) = Some s2"
    and d2: "delay_1000ms (timer sched) (clear_bit (timer sched) PORTB_ADDR 5 s2) = Some s4"
    and a: "a \<noteq> PORTB_ADDR" "a \<noteq> TCCR1A_ADDR" "a \<noteq> TCCR1B_ADDR"
      "a \<noteq> TCNT1L_ADDR" "a \<noteq> TCNT1H_ADDR" "a \<noteq> TIFR1_ADDR"
  shows "regs (set_bit_reg (timer sched) PORTB_ADDR 5 s) a = regs s a"
    and "regs s2 a = regs s a"
    and "regs (clear_bit (timer sched) PORTB_ADDR 5 s2) a = regs s a"
    and "regs s4 a = regs s a"
proof -
  let ?s1 = "set_bit_reg (timer sched) PORTB_ADDR 5 s"
  let ?s3 = "clear_bit (timer sched) PORTB_ADDR 5 s2"
  show 1: "regs ?s1 a = regs s a"
    unfolding set_bit_reg_5_timer using a by (simp add: rmw_timer_regs(3))
  show 2: "regs s2 a = regs s a"
    using delay_timer_frame[OF d1, of a] a 1 by simp
  show 3: "regs ?s3 a = regs s a"
    unfolding clear_bit_5_timer using a 2 by (simp add: rmw_timer_regs(3))
  show "regs s4 a = regs s a"
    using delay_timer_frame[OF d2, of a] a 3 by simp
qed

lemma toggle_passes:
  assumes sl: "slow_clock sched" and tf: "ticks_forever sched"
  shows "\<not> tov1 s \<Longrightarrow> tcnt1 (regs s) \<le> 65530 \<Longrightarrow> \<not> bit (regs s PORTB_ADDR) 5 \<Longrightarrow>
         \<exists>sn. loop_iter n (timer sched) s = Some sn \<and> \<not> tov1 sn \<and> tcnt1 (regs sn) \<le> 65530
             \<and> regs sn DDRB_ADDR = regs s DDRB_ADDR \<and> regs sn PORTB_ADDR = regs s PORTB_ADDR"
proof (induction n arbitrary: s)
  case 0
  then show ?case by simp
next
  case (Suc n)
  obtain s2 s4 where 1:
    "delay_1000ms (timer sched) (set_bit_reg (timer sched) PORTB_ADDR 5 s) = Some s2"
    "delay_1000ms (timer sched) (clear_bit (timer sched) PORTB_ADDR 5 s2) = Some s4"
    "loop_body (timer sched) s = Some s4"
    "regs s4 PORTB_ADDR = regs s PORTB_ADDR"
    "\<not> tov1 s4" "tcnt1 (regs s4) \<le> 2"
    by (rule toggle_pass[OF sl tf Suc.prems]) (rule that)
  have d: "regs s4 DDRB_ADDR = regs s DDRB_ADDR"
    by (rule toggle_pass_frame(4)[OF 1(1) 1(2)]) simp_all
  from 1(6) have c: "tcnt1 (regs s4) \<le> 65530" by linarith
  from Suc.prems(3) 1(4) have low: "\<not> bit (regs s4 PORTB_ADDR) 5" by simp
  from Suc.IH[OF 1(5) c low] obtain sn where
    "loop_iter n (timer sched) s4 = Some sn" "\<not> tov1 sn" "tcnt1 (regs sn) \<le> 65530"
    "regs sn DDRB_ADDR = regs s4 DDRB_ADDR" "regs sn PORTB_ADDR = regs s4 PORTB_ADDR"
    by blast
  with 1(3) 1(4) d show ?case by simp
qed

lemma timer_access_frame:
  "a \<noteq> TCNT1L_ADDR \<Longrightarrow> a \<noteq> TCNT1H_ADDR \<Longrightarrow> a \<noteq> TIFR1_ADDR \<Longrightarrow>
     regs (snd (load (timer sched) z b)) a = regs z a"
  and timer_store_frame:
  "a \<noteq> b \<Longrightarrow> a \<noteq> TCNT1L_ADDR \<Longrightarrow> a \<noteq> TCNT1H_ADDR \<Longrightarrow> a \<noteq> TIFR1_ADDR \<Longrightarrow>
     regs (store (timer sched) z b v) a = regs z a"
  by (simp_all add: load_timer store_timer regs_timer_load regs_timer_store_other
      regs_advance_other)

lemma toggle_pass_trace:
  assumes d1: "delay_1000ms (timer sched) (set_bit_reg (timer sched) PORTB_ADDR 5 s) = Some s2"
    and d2: "delay_1000ms (timer sched) (clear_bit (timer sched) PORTB_ADDR 5 s2) = Some s4"
    and p2: "regs s2 PORTB_ADDR = regs s PORTB_ADDR OR 0x20"
    and low: "\<not> bit (regs s PORTB_ADDR) 5"
  obtains t where
    "loop_body (logged (timer sched)) (s, []) = Some (s4, t)"
    "store_addrs t =
       [PORTB_ADDR, TCCR1A_ADDR, TCCR1B_ADDR, TCNT1L_ADDR, TCNT1H_ADDR, TIFR1_ADDR,
        PORTB_ADDR, TCCR1A_ADDR, TCCR1B_ADDR, TCNT1L_ADDR, TCNT1H_ADDR, TIFR1_ADDR]"
    "writes_to PORTB_ADDR t = [regs s PORTB_ADDR OR 0x20, regs s PORTB_ADDR]"
proof -
  have l: "loop_body (timer sched) s = Some s4"
    using d1 d2 by (simp add: loop_body_def)
  from loop_body_logged_ex[OF l] obtain t where
    t: "loop_body (logged (timer sched)) (s, []) = Some (s4, t)" by blast
  obtain s2' where 1:
    "delay_1000ms (timer sched) (set_bit_reg (timer sched) PORTB_ADDR 5 s) = Some s2'"
    "store_addrs t =
       [PORTB_ADDR, TCCR1A_ADDR, TCCR1B_ADDR, TCNT1L_ADDR, TCNT1H_ADDR, TIFR1_ADDR,
        PORTB_ADDR, TCCR1A_ADDR, TCCR1B_ADDR, TCNT1L_ADDR, TCNT1H_ADDR, TIFR1_ADDR]"
    "writes_to PORTB_ADDR t =
       [fst (load (timer sched) s PORTB_ADDR) OR 0x20,
        fst (load (timer sched) s2' PORTB_ADDR) AND NOT 0x20]"
    by (rule loop_body_logged_stores[OF t]) (rule that)
  from 1(1) d1 have e: "s2' = s2" by simp
  have a: "fst (load (timer sched) s PORTB_ADDR) = regs s PORTB_ADDR"
    "fst (load (timer sched) s2 PORTB_ADDR) = regs s2 PORTB_ADDR"
    by (simp_all add: load_timer rmw_timer_regs(1))
  have w: "writes_to PORTB_ADDR t = [regs s PORTB_ADDR OR 0x20, regs s PORTB_ADDR]"
    unfolding 1(3) e a p2 by (simp only: or_and_not_0x20[OF low])
  show ?thesis by (rule that[OF t 1(2) w])
qed

lemma pin_ready_pin: "bit (regs pin_ready DDRB_ADDR) 5" "\<not> bit (regs pin_ready PORTB_ADDR) 5"
  "regs pin_ready PORTB_ADDR = 0" "regs pin_ready DDRB_ADDR = 0x20"
  by (simp_all add: pin_ready_def bit_0x20)
























section \<open>The properties\<close>

subsection \<open>The preload value\<close>

text \<open>
  C1, as the code has it. With the 16 MHz clock and prescaler 256 (62500 ticks in 1000
  ms), the 16-bit value that a call of \<open>delay_1000ms\<close> writes into the counter byte
  registers is 0x0BDB (low byte 0xDB, high byte 0x0B), which is \<open>0xFFFF - ticks\<close>, one
  less than \<open>0x10000 - ticks\<close>: the counter wraps 62501 ticks after the preload, one tick
  more than 62500.
\<close>

theorem preload_is_0x0BDB:
  "delay_1000ms (logged B) (s, t) = Some (s', t') \<Longrightarrow>
     preload_written (drop (length t) t') = Some 0x0BDB
   \<and> (0x0BDB :: nat) = 0xFFFF - ticks 1
   \<and> 0x10000 - (0x0BDB :: nat) = ticks 1 + 1"
proof -
  assume "delay_1000ms (logged B) (s, t) = Some (s', t')"
  from delay_logged(2)[OF this] obtain vs v w where
    "t' = t @ [Wr TCCR1A_ADDR 0x00, Wr TCCR1B_ADDR 0x04,
                   Wr TCNT1L_ADDR 0xDB, Wr TCNT1H_ADDR 0x0B]
              @ map (Rd TIFR1_ADDR) vs
              @ [Rd TIFR1_ADDR v, Rd TIFR1_ADDR w, Wr TIFR1_ADDR (w OR 1)]"
    by blast
  then have "preload_written (drop (length t) t') = Some 0x0BDB"
    using preload_written_delay_trace[of vs v w "w OR 1"] by simp
  then show ?thesis by (simp add: ticks_1)
qed

theorem preload_is_0x0BDB_witness:
  "delay_1000ms (logged ram) (flag_set_mem, []) = Some (flag_set_mem_after, flag_set_trace)
   \<and> preload_written flag_set_trace = Some 0x0BDB"
  using preload_is_0x0BDB [of ram flag_set_mem "[]" flag_set_mem_after flag_set_trace]
    delay_ram_flag_set
  by simp

text \<open>
  C1 as stated fails: the value written is not \<open>0x10000 - ticks = 0x0BDC\<close>.
\<close>

theorem preload_not_0x0BDC:
  "map_option (preload_written \<circ> snd) (delay_1000ms (logged ram) (flag_set_mem, []))
     = Some (Some 0x0BDB)
   \<and> 0x10000 - ticks 1 = 0x0BDC
   \<and> map_option (preload_written \<circ> snd) (delay_1000ms (logged ram) (flag_set_mem, []))
     \<noteq> Some (Some (0x10000 - ticks 1))"
proof -
  have "preload_written flag_set_trace = Some 0x0BDB"
    by (simp add: flag_set_trace_def preload_written_def)
  then show ?thesis
    by (simp add: delay_ram_flag_set ticks_1)
qed

subsection \<open>The four steps of the delay\<close>

text \<open>
  C2. Every call of \<open>delay_1000ms\<close> that returns has made exactly these accesses, in this
  order, on any device: the two control registers are written (0x00 and 0x04: normal
  mode, one fixed prescale setting), the two counter bytes are written, the flag register
  is read again and again, every read but the last showing bit 0 clear and the last
  showing it set, and then the flag register is read once more and written back with bit
  0 set. On the timer that last store clears the flag: it is clear when the call returns.
\<close>

theorem delay_four_steps:
  "(delay_1000ms (logged B) (s, t) = Some (s', t') \<longrightarrow>
      (\<exists>vs v w.
          t' = t @ [Wr TCCR1A_ADDR 0x00, Wr TCCR1B_ADDR 0x04]
                 @ [Wr TCNT1L_ADDR 0xDB, Wr TCNT1H_ADDR 0x0B]
                 @ map (Rd TIFR1_ADDR) vs @ [Rd TIFR1_ADDR v]
                 @ [Rd TIFR1_ADDR w, Wr TIFR1_ADDR (w OR 1)]
        \<and> (\<forall>x\<in>set vs. \<not> bit x 0) \<and> bit v 0 \<and> bit (w OR 1) 0))
   \<and> (delay_1000ms (timer sched) z = Some z' \<longrightarrow> \<not> tov1 z')"
proof (intro conjI impI)
  assume "delay_1000ms (logged B) (s, t) = Some (s', t')"
  from delay_logged(2)[OF this] obtain vs v w where
    "t' = t @ [Wr TCCR1A_ADDR 0x00, Wr TCCR1B_ADDR 0x04,
                   Wr TCNT1L_ADDR 0xDB, Wr TCNT1H_ADDR 0x0B]
              @ map (Rd TIFR1_ADDR) vs
              @ [Rd TIFR1_ADDR v, Rd TIFR1_ADDR w, Wr TIFR1_ADDR (w OR 1)]"
    "\<forall>x\<in>set vs. \<not> bit x 0" "bit v 0"
    by blast
  then show "\<exists>vs v w.
          t' = t @ [Wr TCCR1A_ADDR 0x00, Wr TCCR1B_ADDR 0x04]
                 @ [Wr TCNT1L_ADDR 0xDB, Wr TCNT1H_ADDR 0x0B]
                 @ map (Rd TIFR1_ADDR) vs @ [Rd TIFR1_ADDR v]
                 @ [Rd TIFR1_ADDR w, Wr TIFR1_ADDR (w OR 1)]
        \<and> (\<forall>x\<in>set vs. \<not> bit x 0) \<and> bit v 0 \<and> bit (w OR 1) 0"
    by (intro exI[of _ vs] exI[of _ v] exI[of _ w]) (simp add: bit_simps)
next
  assume "delay_1000ms (timer sched) z = Some z'"
  then show "\<not> tov1 z'" by (rule delay_timer_flag_clear)
qed

theorem delay_four_steps_witness:
  "delay_1000ms (logged ram) (flag_set_mem, []) = Some (flag_set_mem_after, flag_set_trace)
   \<and> (\<exists>vs v w.
          flag_set_trace = [Wr TCCR1A_ADDR 0x00, Wr TCCR1B_ADDR 0x04]
                 @ [Wr TCNT1L_ADDR 0xDB, Wr TCNT1H_ADDR 0x0B]
                 @ map (Rd TIFR1_ADDR) vs @ [Rd TIFR1_ADDR v]
                 @ [Rd TIFR1_ADDR w, Wr TIFR1_ADDR (w OR 1)]
        \<and> (\<forall>x\<in>set vs. \<not> bit x 0) \<and> bit v 0 \<and> bit (w OR 1) 0)
   \<and> (\<exists>z'. delay_1000ms (timer steady) pin_ready = Some z' \<and> \<not> tov1 z')"
proof -
  from delay_timer_returns[OF ticks_forever_steady] obtain z' where
    z: "delay_1000ms (timer steady) pin_ready = Some z'" by blast
  from delay_four_steps [of ram flag_set_mem "[]" flag_set_mem_after flag_set_trace steady pin_ready z']
    delay_ram_flag_set z
  show ?thesis by simp
qed

subsection \<open>Clearing the overflow flag\<close>

text \<open>
  C3, as the code has it. \<open>delay_1000ms\<close> clears the flag through \<open>set_bit\<close>, a
  read-modify-write: the last two accesses of a call are a read of the flag register and
  the store of the byte just read with bit 0 set. Bit 0 of the stored byte is 1 and its
  other seven bits are those read, so the byte is 0x01 exactly when the other seven bits
  read as 0. On the timer, with write-1-to-clear, the overflow flag is clear after the
  store, and a status bit that read as 0 is not affected: it is still 0.
\<close>

theorem flag_cleared_by_read_modify_write:
  "delay_1000ms (logged (timer sched)) (s, t) = Some (s', t') \<Longrightarrow>
     (\<exists>u w. t' = u @ [Rd TIFR1_ADDR w, Wr TIFR1_ADDR (w OR 1)]
          \<and> bit (w OR 1) 0
          \<and> (\<forall>j. j \<noteq> 0 \<longrightarrow> bit (w OR 1) j = bit w j)
          \<and> ((w OR 1 = 1) = (\<forall>j. j \<noteq> 0 \<longrightarrow> \<not> bit w j))
          \<and> (\<forall>j. \<not> bit w j \<longrightarrow> \<not> bit (regs s' TIFR1_ADDR) j))
   \<and> \<not> tov1 s'"
proof -
  assume d: "delay_1000ms (logged (timer sched)) (s, t) = Some (s', t')"
  from delay_logged_final[OF d] obtain s5 u where
    s': "s' = set_bit_reg (timer sched) TIFR1_ADDR 0 s5"
    and t': "t' = u @ [Rd TIFR1_ADDR (fst (load (timer sched) s5 TIFR1_ADDR)),
                       Wr TIFR1_ADDR (fst (load (timer sched) s5 TIFR1_ADDR) OR 1)]"
    by blast
  let ?w = "fst (load (timer sched) s5 TIFR1_ADDR)"
  have z: "regs s' TIFR1_ADDR = 0"
    unfolding s' by (rule set_bit_tifr1_timer)
  have "bit (?w OR 1) 0" "\<forall>j. j \<noteq> 0 \<longrightarrow> bit (?w OR 1) j = bit ?w j"
    by (simp_all add: bit_simps)
  moreover have "\<forall>j. \<not> bit ?w j \<longrightarrow> \<not> bit (regs s' TIFR1_ADDR) j"
    by (simp add: z)
  moreover note or1_eq_1_iff[of ?w]
  ultimately have "\<exists>u w. t' = u @ [Rd TIFR1_ADDR w, Wr TIFR1_ADDR (w OR 1)]
          \<and> bit (w OR 1) 0
          \<and> (\<forall>j. j \<noteq> 0 \<longrightarrow> bit (w OR 1) j = bit w j)
          \<and> ((w OR 1 = 1) = (\<forall>j. j \<noteq> 0 \<longrightarrow> \<not> bit w j))
          \<and> (\<forall>j. \<not> bit w j \<longrightarrow> \<not> bit (regs s' TIFR1_ADDR) j)"
    using t' by (intro exI[of _ u] exI[of _ ?w]) blast
  moreover have "\<not> tov1 s'" by (simp add: tov1_def z)
  ultimately show ?thesis by blast
qed

theorem flag_cleared_by_read_modify_write_witness:
  "\<exists>s' t'. delay_1000ms (logged (timer steady)) (pin_ready, []) = Some (s', t')
     \<and> (\<exists>u w. t' = u @ [Rd TIFR1_ADDR w, Wr TIFR1_ADDR (w OR 1)] \<and> bit (w OR 1) 0)
     \<and> \<not> tov1 s'"
proof -
  from delay_timer_returns[OF ticks_forever_steady] obtain s' where
    "delay_1000ms (timer steady) pin_ready = Some s'" by blast
  from delay_logged_ex[OF this] obtain t' where
    d: "delay_1000ms (logged (timer steady)) (pin_ready, []) = Some (s', t')" by blast
  from flag_cleared_by_read_modify_write[OF d] d show ?thesis by blast
qed

text \<open>
  C3 as stated fails. With a second flag pending beside the overflow flag (the flag
  register reads 0x03), the byte that the call stores to the flag register is 0x03, not
  0x01, and the second flag, set before the call, is clear after it.
\<close>

theorem flag_clear_write_not_0x01:
  "bit (peek TIFR1_ADDR two_flags) 1
   \<and> map_option (last \<circ> snd) (delay_1000ms (logged (timer stopped)) (two_flags, []))
       = Some (Wr TIFR1_ADDR 3)
   \<and> map_option (peek TIFR1_ADDR \<circ> fst) (delay_1000ms (logged (timer stopped)) (two_flags, []))
       = Some 0"
  by (simp add: delay_two_flags) (simp add: peek_def two_flags_def)

subsection \<open>Setting and clearing one bit\<close>

text \<open>
  C4. On a register that holds what is stored to it, for every register value and every
  bit index 0 to 7: after \<open>set_bit\<close> the register reads with that bit set and every other
  bit as before; after \<open>clear_bit\<close> it reads with that bit clear and every other bit as
  before.
\<close>

theorem set_clear_bit_roundtrip:
  "unat b \<le> 7 \<Longrightarrow>
     bit (fst (read_reg ram a (set_bit_reg ram a b m))) (unat b)
   \<and> (\<forall>j. j \<noteq> unat b \<longrightarrow>
         bit (fst (read_reg ram a (set_bit_reg ram a b m))) j = bit (m a) j)
   \<and> \<not> bit (fst (read_reg ram a (clear_bit ram a b m))) (unat b)
   \<and> (\<forall>j. j \<noteq> unat b \<longrightarrow>
         bit (fst (read_reg ram a (clear_bit ram a b m))) j = bit (m a) j)"
  by (simp add: bit_set_bit_reg_ram bit_clear_bit_ram)

theorem set_clear_bit_roundtrip_witness:
  "unat (5 :: uint8_t) \<le> 7
   \<and> bit (fst (read_reg ram PORTB_ADDR (set_bit_reg ram PORTB_ADDR 5 (\<lambda>a. 0x0F)))) 5
   \<and> bit (fst (read_reg ram PORTB_ADDR (set_bit_reg ram PORTB_ADDR 5 (\<lambda>a. 0x0F)))) 0
   \<and> \<not> bit (fst (read_reg ram PORTB_ADDR (clear_bit ram PORTB_ADDR 5 (\<lambda>a. 0x2F)))) 5
   \<and> bit (fst (read_reg ram PORTB_ADDR (clear_bit ram PORTB_ADDR 5 (\<lambda>a. 0x2F)))) 0"
  using set_clear_bit_roundtrip [of 5 PORTB_ADDR "\<lambda>a. 0x0F"]
    set_clear_bit_roundtrip [of 5 PORTB_ADDR "\<lambda>a. 0x2F"]
  by simp

subsection \<open>Two delays in succession\<close>

text \<open>
  C5, as the code has it. On the timer, with a clock that keeps ticking and is slow
  beside the program (at most one tick in any four consecutive register accesses), from
  a state with the overflow flag clear and the counter more than three ticks from
  wrapping (as after reset, and as after a call that waited): two successive calls of
  \<open>delay_1000ms\<close> both return, and their delays are equal within one prescaled tick: in
  each call the time from the start of the call to the poll that finds the flag set is
  62501 or 62502 ticks. The flag is clear on return from each call, so the second call
  does not find a stale flag and return without waiting. Each call begins by storing
  0x00 and 0x04 to the control registers and 0xDB and 0x0B to the counter bytes, and
  stores to nothing else but the flag register, so the second call's configuration
  equals the first's; the control registers read 0x00 and 0x04 after each call. Each
  call as a whole lasts between 62501 and 62503 ticks.
\<close>

theorem delay_rearms:
  "slow_clock sched \<Longrightarrow> ticks_forever sched \<Longrightarrow>
   \<not> tov1 s \<Longrightarrow> tcnt1 (regs s) \<le> 65532 \<Longrightarrow>
   \<exists>s1 s2 t1 t2.
       delay_1000ms (timer sched) s = Some s1 \<and> delay_1000ms (timer sched) s1 = Some s2
     \<and> delay_1000ms (logged (timer sched)) (s, []) = Some (s1, t1)
     \<and> delay_1000ms (logged (timer sched)) (s1, []) = Some (s2, t2)
     \<and> delay_1000ms (timer sched) s =
           map_option (set_bit_reg (timer sched) TIFR1_ADDR 0) (delay_flag_seen (timer sched) s)
     \<and> delay_1000ms (timer sched) s1 =
           map_option (set_bit_reg (timer sched) TIFR1_ADDR 0) (delay_flag_seen (timer sched) s1)
     \<and> (start_to_flag sched s = Some 62501 \<or> start_to_flag sched s = Some 62502)
     \<and> (start_to_flag sched s1 = Some 62501 \<or> start_to_flag sched s1 = Some 62502)
     \<and> \<not> tov1 s1 \<and> \<not> tov1 s2
     \<and> take 4 t1 = [Wr TCCR1A_ADDR 0x00, Wr TCCR1B_ADDR 0x04,
                     Wr TCNT1L_ADDR 0xDB, Wr TCNT1H_ADDR 0x0B]
     \<and> take 4 t2 = take 4 t1
     \<and> store_addrs t1 = [TCCR1A_ADDR, TCCR1B_ADDR, TCNT1L_ADDR, TCNT1H_ADDR, TIFR1_ADDR]
     \<and> store_addrs t2 = store_addrs t1
     \<and> regs s1 TCCR1A_ADDR = 0x00 \<and> regs s1 TCCR1B_ADDR = 0x04
     \<and> regs s2 TCCR1A_ADDR = 0x00 \<and> regs s2 TCCR1B_ADDR = 0x04
     \<and> elapsed s + 62501 \<le> elapsed s1 \<and> elapsed s1 \<le> elapsed s + 62503
     \<and> elapsed s1 + 62501 \<le> elapsed s2 \<and> elapsed s2 \<le> elapsed s1 + 62503"
proof -
  assume sl: "slow_clock sched" and tf: "ticks_forever sched"
    and nf: "\<not> tov1 s" and c: "tcnt1 (regs s) \<le> 65532"
  from delay_timer_slow[OF sl tf nf c] obtain s1 t1 where 1:
    "delay_1000ms (timer sched) s = Some s1"
    "delay_1000ms (logged (timer sched)) (s, []) = Some (s1, t1)"
    "start_to_flag sched s = Some 62501 \<or> start_to_flag sched s = Some 62502"
    "\<not> tov1 s1" "tcnt1 (regs s1) \<le> 2"
    "elapsed s + 62501 \<le> elapsed s1" "elapsed s1 \<le> elapsed s + 62503"
    by blast
  from 1(5) have c1: "tcnt1 (regs s1) \<le> 65532" by linarith
  from delay_timer_slow[OF sl tf 1(4) c1] obtain s2 t2 where 2:
    "delay_1000ms (timer sched) s1 = Some s2"
    "delay_1000ms (logged (timer sched)) (s1, []) = Some (s2, t2)"
    "start_to_flag sched s1 = Some 62501 \<or> start_to_flag sched s1 = Some 62502"
    "\<not> tov1 s2" "tcnt1 (regs s2) \<le> 2"
    "elapsed s1 + 62501 \<le> elapsed s2" "elapsed s2 \<le> elapsed s1 + 62503"
    by blast
  note p1 = delay_trace_prefix[OF 1(2)] and p2 = delay_trace_prefix[OF 2(2)]
  note g1 = delay_timer_config[OF 1(1)] and g2 = delay_timer_config[OF 2(1)]
  show ?thesis
    apply (rule exI[of _ s1])
    apply (rule exI[of _ s2])
    apply (rule exI[of _ t1])
    apply (rule exI[of _ t2])
    apply (intro conjI)
    apply (fact 1 2 delay_via_flag_seen p1 g1 g2)+
    apply (simp add: p1 p2)
    apply (fact p1)
    apply (simp add: p1 p2)
    apply (fact 1 2 g1 g2)+
    done
qed

theorem delay_rearms_witness:
  "slow_clock quarter \<and> ticks_forever quarter
   \<and> \<not> tov1 pin_ready \<and> tcnt1 (regs pin_ready) \<le> 65532
   \<and> (\<exists>s1 s2. delay_1000ms (timer quarter) pin_ready = Some s1
         \<and> delay_1000ms (timer quarter) s1 = Some s2
         \<and> (start_to_flag quarter pin_ready = Some 62501
              \<or> start_to_flag quarter pin_ready = Some 62502)
         \<and> (start_to_flag quarter s1 = Some 62501 \<or> start_to_flag quarter s1 = Some 62502)
         \<and> \<not> tov1 s1 \<and> \<not> tov1 s2)"
proof -
  have h: "tcnt1 (regs pin_ready) \<le> 65532" by (simp add: pin_ready_facts)
  from delay_rearms [OF slow_clock_quarter ticks_forever_quarter pin_ready_facts(1) h]
  have "\<exists>s1 s2. delay_1000ms (timer quarter) pin_ready = Some s1
         \<and> delay_1000ms (timer quarter) s1 = Some s2
         \<and> (start_to_flag quarter pin_ready = Some 62501
              \<or> start_to_flag quarter pin_ready = Some 62502)
         \<and> (start_to_flag quarter s1 = Some 62501 \<or> start_to_flag quarter s1 = Some 62502)
         \<and> \<not> tov1 s1 \<and> \<not> tov1 s2"
    by blast
  with slow_clock_quarter ticks_forever_quarter pin_ready_facts(1) h show ?thesis
    by blast
qed

text \<open>
  C5 as stated fails: it holds of no state with the flag pending. From such a state, on
  the same slow clock, the first of two successive calls finds the flag set 2 ticks after
  its start and the second 62502 ticks after its start.
\<close>

theorem delay_after_pending_flag:
  "tov1 flag_pending
   \<and> start_to_flag quarter flag_pending = Some 2
   \<and> Option.bind (delay_1000ms (timer quarter) flag_pending) (start_to_flag quarter)
       = Some 62502"
proof -
  note tpa = slow_clock_tick_per_access[OF slow_clock_quarter]
  have c: "tcnt1 (regs flag_pending) \<le> 65532" by (simp add: flag_pending_facts)
  have 1: "start_to_flag quarter flag_pending = Some 2"
    unfolding start_to_flag_stale[OF flag_pending_facts(1)]
    by (simp add: flag_pending_facts quarter_def)
  from delay_stale[OF tpa flag_pending_facts(1) c] obtain s1 where s1:
    "delay_1000ms (timer quarter) flag_pending = Some s1" "\<not> tov1 s1"
    "steps s1 = steps flag_pending + 7" "tcnt1 (regs s1) \<le> 3039"
    by blast
  from s1(4) have c1: "tcnt1 (regs s1) \<le> 65532" by linarith
  have "start_to_flag quarter s1 = Some 62502"
    unfolding start_to_flag_fresh[OF tpa ticks_forever_quarter s1(2) c1]
    by (simp add: s1(3) flag_pending_facts quarter_def)
  with 1 s1(1) flag_pending_facts(1) show ?thesis by simp
qed

subsection \<open>One pass through the loop\<close>

text \<open>
  C6, as the code has it. On the timer, with a clock that keeps ticking and ticks at most
  once in any four accesses in a row, from a state with the overflow flag clear, the
  counter more than five ticks from wrapping, the pin an output and low: one pass through
  the loop ends. Its stores go, in this order, to the output port register, the five
  timer registers (two control registers, two counter bytes, flag register), the output
  port register and the five timer registers again, and no access of the timer changes a
  register that is neither stored to nor a counter byte nor the flag register. The first
  store to the output port register sets bit 5 and leaves the other seven bits alone; the
  register keeps that value until the second store, 62501 to 62503 ticks later, which
  gives it its starting value again; it keeps that one to the end of the pass, 62501 to
  62503 ticks later. The data-direction register and every register other than the
  output port register and the five timer registers have their starting values after
  each store to the output port register and after each delay. The pass ends with the
  flag clear and the counter just wrapped; so after any number of passes the loop is
  again in a state as described, with the same values in the data-direction and the
  output port registers.
\<close>

theorem toggle_cycle:
  "slow_clock sched \<Longrightarrow> ticks_forever sched \<Longrightarrow>
   \<not> tov1 s \<Longrightarrow> tcnt1 (regs s) \<le> 65530 \<Longrightarrow>
   bit (regs s DDRB_ADDR) 5 \<Longrightarrow> \<not> bit (regs s PORTB_ADDR) 5 \<Longrightarrow>
   \<exists>s2 s4 t.
       delay_1000ms (timer sched) (set_bit_reg (timer sched) PORTB_ADDR 5 s) = Some s2
     \<and> delay_1000ms (timer sched) (clear_bit (timer sched) PORTB_ADDR 5 s2) = Some s4
     \<and> loop_body (timer sched) s = Some s4
     \<and> loop_body (logged (timer sched)) (s, []) = Some (s4, t)
     \<and> store_addrs t =
         [PORTB_ADDR, TCCR1A_ADDR, TCCR1B_ADDR, TCNT1L_ADDR, TCNT1H_ADDR, TIFR1_ADDR,
          PORTB_ADDR, TCCR1A_ADDR, TCCR1B_ADDR, TCNT1L_ADDR, TCNT1H_ADDR, TIFR1_ADDR]
     \<and> writes_to PORTB_ADDR t = [regs s PORTB_ADDR OR 0x20, regs s PORTB_ADDR]
     \<and> (\<forall>z b a. a \<noteq> TCNT1L_ADDR \<longrightarrow> a \<noteq> TCNT1H_ADDR \<longrightarrow> a \<noteq> TIFR1_ADDR \<longrightarrow>
              regs (snd (load (timer sched) z b)) a = regs z a)
     \<and> (\<forall>z b v a. a \<noteq> b \<longrightarrow> a \<noteq> TCNT1L_ADDR \<longrightarrow> a \<noteq> TCNT1H_ADDR \<longrightarrow> a \<noteq> TIFR1_ADDR \<longrightarrow>
              regs (store (timer sched) z b v) a = regs z a)
     \<and> regs (set_bit_reg (timer sched) PORTB_ADDR 5 s) PORTB_ADDR = regs s PORTB_ADDR OR 0x20
     \<and> regs s2 PORTB_ADDR = regs s PORTB_ADDR OR 0x20
     \<and> regs (clear_bit (timer sched) PORTB_ADDR 5 s2) PORTB_ADDR = regs s PORTB_ADDR
     \<and> regs s4 PORTB_ADDR = regs s PORTB_ADDR
     \<and> elapsed (set_bit_reg (timer sched) PORTB_ADDR 5 s) + 62501
           \<le> elapsed (clear_bit (timer sched) PORTB_ADDR 5 s2)
     \<and> elapsed (clear_bit (timer sched) PORTB_ADDR 5 s2)
           \<le> elapsed (set_bit_reg (timer sched) PORTB_ADDR 5 s) + 62503
     \<and> elapsed (clear_bit (timer sched) PORTB_ADDR 5 s2) + 62501 \<le> elapsed s4
     \<and> elapsed s4 \<le> elapsed (clear_bit (timer sched) PORTB_ADDR 5 s2) + 62503
     \<and> regs (set_bit_reg (timer sched) PORTB_ADDR 5 s) DDRB_ADDR = regs s DDRB_ADDR
     \<and> regs s2 DDRB_ADDR = regs s DDRB_ADDR
     \<and> regs (clear_bit (timer sched) PORTB_ADDR 5 s2) DDRB_ADDR = regs s DDRB_ADDR
     \<and> regs s4 DDRB_ADDR = regs s DDRB_ADDR
     \<and> (\<forall>a. a \<noteq> PORTB_ADDR \<longrightarrow> a \<noteq> TCCR1A_ADDR \<longrightarrow> a \<noteq> TCCR1B_ADDR \<longrightarrow>
              a \<noteq> TCNT1L_ADDR \<longrightarrow> a \<noteq> TCNT1H_ADDR \<longrightarrow> a \<noteq> TIFR1_ADDR \<longrightarrow>
              regs (set_bit_reg (timer sched) PORTB_ADDR 5 s) a = regs s a
            \<and> regs s2 a = regs s a
            \<and> regs (clear_bit (timer sched) PORTB_ADDR 5 s2) a = regs s a
            \<and> regs s4 a = regs s a)
     \<and> \<not> tov1 s4 \<and> tcnt1 (regs s4) \<le> 2
     \<and> (\<forall>n. \<exists>sn. loop_iter n (timer sched) s = Some sn
              \<and> \<not> tov1 sn \<and> tcnt1 (regs sn) \<le> 65530
              \<and> regs sn DDRB_ADDR = regs s DDRB_ADDR \<and> regs sn PORTB_ADDR = regs s PORTB_ADDR)"
proof -
  assume sl: "slow_clock sched" and tf: "ticks_forever sched"
    and nf: "\<not> tov1 s" and c: "tcnt1 (regs s) \<le> 65530"
    and out: "bit (regs s DDRB_ADDR) 5" and low: "\<not> bit (regs s PORTB_ADDR) 5"
  let ?T = "timer sched"
  let ?s1 = "set_bit_reg ?T PORTB_ADDR 5 s"
  obtain s2 s4 where 1:
    "delay_1000ms ?T ?s1 = Some s2"
    "delay_1000ms ?T (clear_bit ?T PORTB_ADDR 5 s2) = Some s4"
    "loop_body ?T s = Some s4"
    "regs ?s1 PORTB_ADDR = regs s PORTB_ADDR OR 0x20"
    "regs s2 PORTB_ADDR = regs s PORTB_ADDR OR 0x20"
    "regs (clear_bit ?T PORTB_ADDR 5 s2) PORTB_ADDR = regs s PORTB_ADDR"
    "regs s4 PORTB_ADDR = regs s PORTB_ADDR"
    "elapsed ?s1 + 62501 \<le> elapsed (clear_bit ?T PORTB_ADDR 5 s2)"
    "elapsed (clear_bit ?T PORTB_ADDR 5 s2) \<le> elapsed ?s1 + 62503"
    "elapsed (clear_bit ?T PORTB_ADDR 5 s2) + 62501 \<le> elapsed s4"
    "elapsed s4 \<le> elapsed (clear_bit ?T PORTB_ADDR 5 s2) + 62503"
    "\<not> tov1 s4" "tcnt1 (regs s4) \<le> 2"
    by (rule toggle_pass[OF sl tf nf c low]) (rule that)
  let ?s3 = "clear_bit ?T PORTB_ADDR 5 s2"
  obtain t where 2:
    "loop_body (logged ?T) (s, []) = Some (s4, t)"
    "store_addrs t =
       [PORTB_ADDR, TCCR1A_ADDR, TCCR1B_ADDR, TCNT1L_ADDR, TCNT1H_ADDR, TIFR1_ADDR,
        PORTB_ADDR, TCCR1A_ADDR, TCCR1B_ADDR, TCNT1L_ADDR, TCNT1H_ADDR, TIFR1_ADDR]"
    "writes_to PORTB_ADDR t = [regs s PORTB_ADDR OR 0x20, regs s PORTB_ADDR]"
    by (rule toggle_pass_trace[OF 1(1) 1(2) 1(5) low]) (rule that)
  have lf: "\<forall>z b a. a \<noteq> TCNT1L_ADDR \<longrightarrow> a \<noteq> TCNT1H_ADDR \<longrightarrow> a \<noteq> TIFR1_ADDR \<longrightarrow>
              regs (snd (load ?T z b)) a = regs z a"
    by (simp add: timer_access_frame)
  have sf: "\<forall>z b v a. a \<noteq> b \<longrightarrow> a \<noteq> TCNT1L_ADDR \<longrightarrow> a \<noteq> TCNT1H_ADDR \<longrightarrow> a \<noteq> TIFR1_ADDR \<longrightarrow>
              regs (store ?T z b v) a = regs z a"
    by (simp add: timer_store_frame)
  have d1: "regs ?s1 DDRB_ADDR = regs s DDRB_ADDR"
    by (rule toggle_pass_frame(1)[OF 1(1) 1(2)]) simp_all
  have d2: "regs s2 DDRB_ADDR = regs s DDRB_ADDR"
    by (rule toggle_pass_frame(2)[OF 1(1) 1(2)]) simp_all
  have d3: "regs ?s3 DDRB_ADDR = regs s DDRB_ADDR"
    by (rule toggle_pass_frame(3)[OF 1(1) 1(2)]) simp_all
  have d4: "regs s4 DDRB_ADDR = regs s DDRB_ADDR"
    by (rule toggle_pass_frame(4)[OF 1(1) 1(2)]) simp_all
  have frame: "\<forall>a. a \<noteq> PORTB_ADDR \<longrightarrow> a \<noteq> TCCR1A_ADDR \<longrightarrow> a \<noteq> TCCR1B_ADDR \<longrightarrow>
              a \<noteq> TCNT1L_ADDR \<longrightarrow> a \<noteq> TCNT1H_ADDR \<longrightarrow> a \<noteq> TIFR1_ADDR \<longrightarrow>
              regs ?s1 a = regs s a \<and> regs s2 a = regs s a
            \<and> regs ?s3 a = regs s a \<and> regs s4 a = regs s a"
    by (intro allI impI conjI; rule toggle_pass_frame[OF 1(1) 1(2)]; assumption)
  have rep: "\<forall>n. \<exists>sn. loop_iter n ?T s = Some sn
              \<and> \<not> tov1 sn \<and> tcnt1 (regs sn) \<le> 65530
              \<and> regs sn DDRB_ADDR = regs s DDRB_ADDR \<and> regs sn PORTB_ADDR = regs s PORTB_ADDR"
    by (rule allI) (rule toggle_passes[OF sl tf nf c low])
  show ?thesis
    apply (rule exI[of _ s2])
    apply (rule exI[of _ s4])
    apply (rule exI[of _ t])
    apply (intro conjI)
    apply (fact 1 2 lf sf d1 d2 d3 d4 frame rep)+
    done
qed

theorem toggle_cycle_witness:
  "slow_clock quarter \<and> ticks_forever quarter
   \<and> \<not> tov1 pin_ready \<and> tcnt1 (regs pin_ready) \<le> 65530
   \<and> bit (regs pin_ready DDRB_ADDR) 5 \<and> \<not> bit (regs pin_ready PORTB_ADDR) 5
   \<and> (\<exists>s4 t. loop_body (timer quarter) pin_ready = Some s4
          \<and> loop_body (logged (timer quarter)) (pin_ready, []) = Some (s4, t)
          \<and> writes_to PORTB_ADDR t = [0x20, 0x00]
          \<and> regs s4 PORTB_ADDR = 0x00
          \<and> regs s4 DDRB_ADDR = 0x20
          \<and> \<not> tov1 s4 \<and> tcnt1 (regs s4) \<le> 2)"
proof -
  have h: "tcnt1 (regs pin_ready) \<le> 65530" by (simp add: pin_ready_facts)
  from toggle_cycle [OF slow_clock_quarter ticks_forever_quarter pin_ready_facts(1) h
      pin_ready_pin(1,2)]
  obtain s2 s4 t where
    "loop_body (timer quarter) pin_ready = Some s4"
    "loop_body (logged (timer quarter)) (pin_ready, []) = Some (s4, t)"
    "writes_to PORTB_ADDR t = [regs pin_ready PORTB_ADDR OR 0x20, regs pin_ready PORTB_ADDR]"
    "regs s4 PORTB_ADDR = regs pin_ready PORTB_ADDR"
    "regs s4 DDRB_ADDR = regs pin_ready DDRB_ADDR"
    "\<not> tov1 s4" "tcnt1 (regs s4) \<le> 2"
    by (elim exE conjE)
  then have "\<exists>s4 t. loop_body (timer quarter) pin_ready = Some s4
          \<and> loop_body (logged (timer quarter)) (pin_ready, []) = Some (s4, t)
          \<and> writes_to PORTB_ADDR t = [0x20, 0x00]
          \<and> regs s4 PORTB_ADDR = 0x00
          \<and> regs s4 DDRB_ADDR = 0x20
          \<and> \<not> tov1 s4 \<and> tcnt1 (regs s4) \<le> 2"
    by (simp add: pin_ready_pin(3,4))
  with slow_clock_quarter ticks_forever_quarter pin_ready_facts(1) h pin_ready_pin(1,2)
  show ?thesis by (intro conjI)
qed

text \<open>
  C6 as stated fails: a pass through the loop changes registers other than the
  data-direction and output port registers. From the state after reset with the pin an
  output and low, the second control register of the timer is 0x00 before the pass and
  0x04 after it.
\<close>

theorem toggle_cycle_changes_timer_register:
  "bit (peek DDRB_ADDR pin_ready) 5 \<and> \<not> bit (peek PORTB_ADDR pin_ready) 5
   \<and> peek TCCR1B_ADDR pin_ready = 0x00
   \<and> map_option (peek TCCR1B_ADDR) (loop_body (timer steady) pin_ready) = Some 0x04"
proof -
  from loop_body_timer_returns[OF ticks_forever_steady] obtain s4 where
    l: "loop_body (timer steady) pin_ready = Some s4" by blast
  then obtain s2 where
    "delay_1000ms (timer steady) (clear_bit (timer steady) PORTB_ADDR 5 s2) = Some s4"
    by (auto simp add: loop_body_def split: option.splits)
  from delay_timer_config(2)[OF this] l
  have "map_option (peek TCCR1B_ADDR) (loop_body (timer steady) pin_ready) = Some 0x04"
    by (simp add: peek_def)
  moreover have "bit (peek DDRB_ADDR pin_ready) 5"
    by (simp add: peek_def pin_ready_def bit_0x20)
  moreover have "\<not> bit (peek PORTB_ADDR pin_ready) 5" "peek TCCR1B_ADDR pin_ready = 0x00"
    by (simp_all add: peek_def pin_ready_def)
  ultimately show ?thesis by blast
qed

subsection \<open>Returning and blocking\<close>

text \<open>
  C7. \<open>delay_1000ms\<close> has no error value: it returns a state or does not return. On the
  timer, whose counter counts up from the preloaded value and sets the overflow flag when
  it wraps, the call returns whenever the clock keeps ticking, from every state. When the
  clock is stopped and the flag is clear, so that the flag is never set, the call never
  returns: it blocks, and nothing is detected or reported.
\<close>

theorem delay_returns_or_blocks:
  "(ticks_forever sched \<longrightarrow> (\<exists>s'. delay_1000ms (timer sched) s = Some s'))
   \<and> ((\<forall>k. sched k = 0) \<longrightarrow> \<not> tov1 s \<longrightarrow> delay_1000ms (timer sched) s = None)"
  using delay_timer_returns [of sched s] delay_timer_stopped [of sched s]
  by blast

theorem delay_returns_or_blocks_witness:
  "ticks_forever steady \<and> (\<exists>s'. delay_1000ms (timer steady) pin_ready = Some s')
   \<and> (\<forall>k. stopped k = 0) \<and> \<not> tov1 pin_ready
   \<and> delay_1000ms (timer stopped) pin_ready = None"
proof -
  have "\<not> tov1 pin_ready" by (simp add: tov1_def pin_ready_def)
  moreover have "\<forall>k. stopped k = 0" by (simp add: stopped_def)
  ultimately show ?thesis
    using delay_returns_or_blocks [of steady pin_ready]
      delay_returns_or_blocks [of stopped pin_ready] ticks_forever_steady
    by blast
qed

subsection \<open>The main program\<close>



subsection \<open>The order of the preload stores\<close>

text \<open>
  C9. In every call of \<open>delay_1000ms\<close>, on any device, the store of 0xDB to the counter
  low byte register (0x84) comes strictly before the store of 0x0B to the counter high
  byte register (0x85): they are the third and fourth accesses of the call, reached
  before the polling loop whether or not that loop ever ends, and a call that returns has
  made no other store to either register.
\<close>

theorem preload_low_before_high:
  "snd (delay_armed (logged B) (s, t)) =
     t @ [Wr TCCR1A_ADDR 0x00, Wr TCCR1B_ADDR 0x04, Wr 0x84 0xDB, Wr 0x85 0x0B]
   \<and> (delay_1000ms (logged B) (s, t) = Some (s', t') \<longrightarrow>
        (\<exists>u. t' = t @ u
             \<and> u ! 2 = Wr TCNT1L_ADDR 0xDB \<and> u ! 3 = Wr TCNT1H_ADDR 0x0B
             \<and> write_positions TCNT1L_ADDR 0 u = [2]
             \<and> write_positions TCNT1H_ADDR 0 u = [3]))"
proof (intro conjI impI)
  show "snd (delay_armed (logged B) (s, t)) =
     t @ [Wr TCCR1A_ADDR 0x00, Wr TCCR1B_ADDR 0x04, Wr 0x84 0xDB, Wr 0x85 0x0B]"
    by (simp add: delay_armed_logged addr_defs)
next
  assume "delay_1000ms (logged B) (s, t) = Some (s', t')"
  from delay_logged(2)[OF this] obtain vs v w where
    t': "t' = t @ [Wr TCCR1A_ADDR 0x00, Wr TCCR1B_ADDR 0x04,
                   Wr TCNT1L_ADDR 0xDB, Wr TCNT1H_ADDR 0x0B]
              @ map (Rd TIFR1_ADDR) vs
              @ [Rd TIFR1_ADDR v, Rd TIFR1_ADDR w, Wr TIFR1_ADDR (w OR 1)]"
    by blast
  let ?u = "[Wr TCCR1A_ADDR 0x00, Wr TCCR1B_ADDR 0x04,
                   Wr TCNT1L_ADDR 0xDB, Wr TCNT1H_ADDR 0x0B]
              @ map (Rd TIFR1_ADDR) vs
              @ [Rd TIFR1_ADDR v, Rd TIFR1_ADDR w, Wr TIFR1_ADDR (w OR 1)]"
  have "write_positions TCNT1L_ADDR 0 ?u = [2]" "write_positions TCNT1H_ADDR 0 ?u = [3]"
    by (simp_all add: write_positions_append write_positions_reads)
  moreover have "?u ! 2 = Wr TCNT1L_ADDR 0xDB" "?u ! 3 = Wr TCNT1H_ADDR 0x0B"
    by (simp_all add: nth_Cons')
  ultimately show "\<exists>u. t' = t @ u
             \<and> u ! 2 = Wr TCNT1L_ADDR 0xDB \<and> u ! 3 = Wr TCNT1H_ADDR 0x0B
             \<and> write_positions TCNT1L_ADDR 0 u = [2]
             \<and> write_positions TCNT1H_ADDR 0 u = [3]"
    using t' by (intro exI[of _ ?u]) simp
qed

theorem preload_low_before_high_witness:
  "delay_1000ms (logged ram) (flag_set_mem, []) = Some (flag_set_mem_after, flag_set_trace)
   \<and> flag_set_trace ! 2 = Wr TCNT1L_ADDR 0xDB \<and> flag_set_trace ! 3 = Wr TCNT1H_ADDR 0x0B
   \<and> write_positions TCNT1L_ADDR 0 flag_set_trace = [2]
   \<and> write_positions TCNT1H_ADDR 0 flag_set_trace = [3]"
  using preload_low_before_high [of ram flag_set_mem "[]" flag_set_mem_after flag_set_trace]
    delay_ram_flag_set
  by simp

subsection \<open>Setting and clearing twice\<close>

text \<open>
  C10. On a register that holds what is stored to it, \<open>set_bit\<close> twice is \<open>set_bit\<close> once,
  \<open>clear_bit\<close> twice is \<open>clear_bit\<close> once, and \<open>clear_bit\<close> after \<open>set_bit\<close> of the same
  bit leaves what \<open>clear_bit\<close> alone leaves: the original value with that bit cleared.
\<close>

theorem set_clear_bit_idempotent:
  "set_bit_reg ram a b (set_bit_reg ram a b m) = set_bit_reg ram a b m
   \<and> clear_bit ram a b (clear_bit ram a b m) = clear_bit ram a b m
   \<and> clear_bit ram a b (set_bit_reg ram a b m) = clear_bit ram a b m
   \<and> (\<forall>j. bit (fst (read_reg ram a (clear_bit ram a b (set_bit_reg ram a b m)))) j
           = (j \<noteq> unat b \<and> bit (m a) j))"
proof -
  have "clear_bit ram a b (set_bit_reg ram a b m) = clear_bit ram a b m"
    by (simp add: set_bit_reg_def clear_bit_def ram_def and_not_or_trunc del: push_bit_of_1)
  moreover have "set_bit_reg ram a b (set_bit_reg ram a b m) = set_bit_reg ram a b m"
    by (simp add: set_bit_reg_def ram_def or_trunc del: push_bit_of_1)
  moreover have "clear_bit ram a b (clear_bit ram a b m) = clear_bit ram a b m"
    by (simp add: clear_bit_def ram_def and_not_trunc del: push_bit_of_1)
  ultimately show ?thesis
    by (simp add: bit_clear_bit_ram)
qed

end
